theory Spec2Isabelle
  imports Complex_Main "HOL-Library.Sublist"
begin

unbundle bit_operations_syntax

chapter \<open>NanoGUI: fixed-size linear algebra and the Screen event funnel\<close>

text \<open>
  A shallow embedding of \<^verbatim>\<open>include/nanogui/vector.h\<close>, \<^verbatim>\<open>include/nanogui/matrix.h\<close> and
  \<^verbatim>\<open>src/screen.cpp\<close>. The first part holds the definitions, in the order of the sources; the
  second part holds the lemmas and the theorems about them.
\<close>

section \<open>vector.h: statically sized vectors\<close>

text \<open>
  \<^verbatim>\<open>Vector<T, n>\<close> owns the array \<^verbatim>\<open>T mElems[n]\<close>. The array is a list, and the template
  parameter \<open>n\<close> is passed to every operation that loops up to it. A template that is disabled
  by \<^verbatim>\<open>enable_if\<close> has no value: the accessor returns \<open>None\<close>.
\<close>

type_synonym 'a Vector = "'a list"

text \<open>\<^verbatim>\<open>explicit Vector(T val = 0)\<close>: every one of the \<open>n\<close> slots is assigned \<open>val\<close>.\<close>

definition Vector_ctor :: "nat \<Rightarrow> 'a \<Rightarrow> 'a Vector" where
  "Vector_ctor n val = replicate n val"

text \<open>
  \<^verbatim>\<open>combine<Op>(rhs)\<close>, the loop behind the binary operators, and \<^verbatim>\<open>operator-\<close>. The loop of
  \<^verbatim>\<open>apply<Op>(rhs)\<close>, behind \<^verbatim>\<open>operator-=\<close>, stores the same elements in the left operand.
\<close>

definition Vector_combine ::
  "('a \<Rightarrow> 'a \<Rightarrow> 'a) \<Rightarrow> nat \<Rightarrow> 'a Vector \<Rightarrow> 'a Vector \<Rightarrow> 'a Vector" where
  "Vector_combine Op n lhs rhs = map (\<lambda>i. Op (lhs ! i) (rhs ! i)) [0..<n]"

definition Vector_minus :: "nat \<Rightarrow> ('a::minus) Vector \<Rightarrow> 'a Vector \<Rightarrow> 'a Vector" where
  "Vector_minus n lhs rhs = Vector_combine (-) n lhs rhs"

text \<open>\<^verbatim>\<open>operator==\<close>: false as soon as one of the \<open>n\<close> elements differs.\<close>

definition Vector_eq :: "nat \<Rightarrow> 'a Vector \<Rightarrow> 'a Vector \<Rightarrow> bool" where
  "Vector_eq n lhs rhs = list_all (\<lambda>i. lhs ! i = rhs ! i) [0..<n]"

text \<open>
  \<^verbatim>\<open>get<i>()\<close> exists only where \<^verbatim>\<open>std::isgreater(n, i)\<close>; the named accessors are
  \<^verbatim>\<open>x() = get<0>()\<close>, \<^verbatim>\<open>y() = get<1>()\<close>, \<^verbatim>\<open>z() = get<2>()\<close> and \<^verbatim>\<open>w() = get<2>()\<close>.
\<close>

definition Vector_get :: "nat \<Rightarrow> nat \<Rightarrow> 'a Vector \<Rightarrow> 'a option" where
  "Vector_get n i v = (if i < n then Some (v ! i) else None)"

definition Vector_x :: "nat \<Rightarrow> 'a Vector \<Rightarrow> 'a option" where
  "Vector_x n v = Vector_get n 0 v"

definition Vector_y :: "nat \<Rightarrow> 'a Vector \<Rightarrow> 'a option" where
  "Vector_y n v = Vector_get n 1 v"

definition Vector_z :: "nat \<Rightarrow> 'a Vector \<Rightarrow> 'a option" where
  "Vector_z n v = Vector_get n 2 v"

definition Vector_w :: "nat \<Rightarrow> 'a Vector \<Rightarrow> 'a option" where
  "Vector_w n v = Vector_get n 2 v"

section \<open>matrix.h: statically sized matrices\<close>

text \<open>
  \<^verbatim>\<open>Matrix<T, R, C>\<close> owns \<^verbatim>\<open>Row mRows[R]\<close> with \<^verbatim>\<open>Row = Vector<T, C>\<close>: a list of \<open>R\<close> rows.
  \<open>Matrix_dims\<close> says that a value has the storage of a \<^verbatim>\<open>Matrix<T, R, C>\<close>.
\<close>

type_synonym 'a Matrix = "'a Vector list"

definition Matrix_dims :: "nat \<Rightarrow> nat \<Rightarrow> 'a Matrix \<Rightarrow> bool" where
  "Matrix_dims R C m = (length m = R \<and> list_all (\<lambda>row. length row = C) m)"

text \<open>\<^verbatim>\<open>Matrix() {}\<close>: every row is default-constructed, that is \<^verbatim>\<open>Vector(0)\<close>.\<close>

definition Matrix_ctor :: "nat \<Rightarrow> nat \<Rightarrow> ('a::zero) Matrix" where
  "Matrix_ctor R C = replicate R (Vector_ctor C 0)"

text \<open>The assignment \<^verbatim>\<open>mRows[r][c] = v\<close>.\<close>

definition Matrix_set :: "'a Matrix \<Rightarrow> nat \<Rightarrow> nat \<Rightarrow> 'a \<Rightarrow> 'a Matrix" where
  "Matrix_set m r c v = m[r := (m ! r)[c := v]]"

definition setZero :: "nat \<Rightarrow> nat \<Rightarrow> ('a::zero) Matrix \<Rightarrow> 'a Matrix" where
  "setZero R C m =
     fold (\<lambda>r m. fold (\<lambda>c m. Matrix_set m r c 0) [0..<C] m) [0..<R] m"

definition setIdentity :: "nat \<Rightarrow> nat \<Rightarrow> ('a::{zero,one}) Matrix \<Rightarrow> 'a Matrix" where
  "setIdentity R C m =
     fold (\<lambda>i m. Matrix_set m i i 1) [0..<min R C] (setZero R C m)"

text \<open>
  \<^verbatim>\<open>operator*(const Matrix<T, C, P>& rhs)\<close>: \<^verbatim>\<open>out\<close> starts as \<^verbatim>\<open>Matrix<T, R, P>()\<close> and the
  three nested loops run \<^verbatim>\<open>out[i][j] += mRows[i][k] * rhs[k][j]\<close>.
\<close>

definition Matrix_times ::
  "nat \<Rightarrow> nat \<Rightarrow> nat \<Rightarrow> ('a::semiring_0) Matrix \<Rightarrow> 'a Matrix \<Rightarrow> 'a Matrix" where
  "Matrix_times R C P lhs rhs =
     fold (\<lambda>i out.
       fold (\<lambda>j out.
         fold (\<lambda>k out. Matrix_set out i j (out ! i ! j + lhs ! i ! k * rhs ! k ! j))
           [0..<C] out)
         [0..<P] out)
       [0..<R] (Matrix_ctor R P)"

section \<open>screen.cpp: the objects\<close>

text \<open>
  A widget is known by its address. \<^verbatim>\<open>Vector2i\<close> is \<^verbatim>\<open>Vector<int, 2>\<close>; coordinates are
  unbounded integers (signed overflow is undefined in C++ and no operation below relies on it).
\<close>

type_synonym widget = nat
type_synonym Vector2i = "int Vector"

text \<open>
  The dynamic type of a widget, as \<^verbatim>\<open>dynamic_cast\<close> sees it. A \<^verbatim>\<open>Popup*\<close> is passed where
  \<^verbatim>\<open>moveWindowToFront\<close> takes a \<^verbatim>\<open>Window*\<close>, so a popup is a window.
\<close>

datatype wclass = WidgetClass | WindowClass | PopupClass

text \<open>
  The heap holds the members of the Screen and, for each widget, what screen.cpp reads from it.
  The classes Widget, Window and Popup are declared outside the three source files, so their
  members are fields indexed by the widget: \<open>wParent\<close> is \<^verbatim>\<open>parent()\<close>, \<open>wFocused\<close> is
  \<^verbatim>\<open>focused()\<close>, \<open>wCursor\<close> is \<^verbatim>\<open>cursor()\<close>, \<open>wContains\<close> is \<^verbatim>\<open>contains(p)\<close>,
  \<open>wAbsolutePosition\<close> is \<^verbatim>\<open>absolutePosition()\<close>, \<open>wModal\<close> is \<^verbatim>\<open>modal()\<close> and
  \<open>wParentWindow\<close> is \<^verbatim>\<open>parentWindow()\<close>; \<open>None\<close> is the null pointer. \<open>thisScreen\<close> is the
  address of the Screen itself.
\<close>

record heap =
  wclass :: "widget \<Rightarrow> wclass"
  wParent :: "widget \<Rightarrow> widget option"
  wFocused :: "widget \<Rightarrow> bool"
  wCursor :: "widget \<Rightarrow> nat"
  wContains :: "widget \<Rightarrow> Vector2i \<Rightarrow> bool"
  wAbsolutePosition :: "widget \<Rightarrow> Vector2i"
  wModal :: "widget \<Rightarrow> bool"
  wParentWindow :: "widget \<Rightarrow> widget option"
  thisScreen :: widget
  mChildren :: "widget list"
  mFocusPath :: "widget list"
  mMousePos :: Vector2i
  mMouseState :: int
  mModifiers :: int
  mDragActive :: bool
  mDragWidget :: "widget option"
  mCursor :: nat
  mLastInteraction :: real
  mSize :: Vector2i
  mFBSize :: Vector2i
  mPixelRatio :: real

text \<open>\<^verbatim>\<open>dynamic_cast<Window *>(w)\<close> succeeds.\<close>

definition isWindow :: "heap \<Rightarrow> widget \<Rightarrow> bool" where
  "isWindow h w = (wclass h w = WindowClass \<or> wclass h w = PopupClass)"

text \<open>
  \<^verbatim>\<open>Popup *pw = dynamic_cast<Popup *>(c); pw && pw->parentWindow() == window\<close>, for a
  non-null \<^verbatim>\<open>window\<close>.
\<close>

definition isPopupOf :: "heap \<Rightarrow> widget \<Rightarrow> widget \<Rightarrow> bool" where
  "isPopupOf h c window = (wclass h c = PopupClass \<and> wParentWindow h c = Some window)"

section \<open>screen.cpp: outcomes, exceptions and the calls a handler makes\<close>

text \<open>
  A call either returns, throws, dereferences a null pointer (\<open>Undefined\<close>) or never returns
  (\<open>Diverges\<close>). The handlers catch \<^verbatim>\<open>const std::exception &\<close>, so an exception is either a
  \<^verbatim>\<open>std::exception\<close> with its \<^verbatim>\<open>what()\<close> or something else.
\<close>

datatype exn = StdException string | ForeignException

datatype 'a outcome = Returns 'a | Throws exn | Undefined | Diverges

text \<open>
  What a handler does to the widgets and to the diagnostic stream, in the order it does it: each
  virtual method it invokes with its arguments, each hit test, the resize hook, and each line
  written to \<^verbatim>\<open>std::cerr\<close>.
\<close>

datatype call =
    FindWidget Vector2i
  | MouseDragEvent widget Vector2i Vector2i int int
  | MouseMotionEvent widget Vector2i Vector2i int int
  | MouseButtonEvent widget Vector2i nat bool int
  | ScrollEvent widget Vector2i "real Vector"
  | KeyboardEvent widget int int int int
  | KeyboardCharacterEvent widget nat
  | FocusEvent widget bool
  | DropEvent "string list"
  | ResizeCallback Vector2i
  | Cerr string

type_synonym 'a run = "call list \<times> 'a outcome \<times> heap"

definition calls_of :: "'a run \<Rightarrow> call list" where
  "calls_of r = fst r"

definition outcome_of :: "'a run \<Rightarrow> 'a outcome" where
  "outcome_of r = fst (snd r)"

definition heap_of :: "'a run \<Rightarrow> heap" where
  "heap_of r = snd (snd r)"

text \<open>
  Sequencing: the second statement runs on the heap the first one left, unless the first one did
  not return; the heap is kept as it was at that point (C++ undoes nothing when it unwinds).
\<close>

definition andThen :: "'a run \<Rightarrow> ('a \<Rightarrow> heap \<Rightarrow> 'b run) \<Rightarrow> 'b run" where
  "andThen r f =
     (case r of (cs, out, h) \<Rightarrow>
        (case out of
           Returns a \<Rightarrow> (case f a h of (cs', r') \<Rightarrow> (cs @ cs', r'))
         | Throws e \<Rightarrow> (cs, Throws e, h)
         | Undefined \<Rightarrow> (cs, Undefined, h)
         | Diverges \<Rightarrow> (cs, Diverges, h)))"

definition invoke :: "call \<Rightarrow> 'a outcome \<times> heap \<Rightarrow> 'a run" where
  "invoke c r = ([c], r)"

definition logged :: "call list \<Rightarrow> 'a run \<Rightarrow> 'a run" where
  "logged cs r = (cs @ calls_of r, outcome_of r, heap_of r)"

text \<open>
  \<^verbatim>\<open>try { ... } catch (const std::exception &e) { std::cerr << "Caught exception in event
  handler: " << e.what() << std::endl; return false; }\<close>
\<close>

definition tryCatch :: "bool run \<Rightarrow> bool run" where
  "tryCatch r =
     (case r of (cs, out, h) \<Rightarrow>
        (case out of
           Throws e \<Rightarrow>
             (case e of
                StdException what \<Rightarrow>
                  (cs @ [Cerr (''Caught exception in event handler: '' @ what)], Returns False, h)
              | ForeignException \<Rightarrow> (cs, Throws e, h))
         | _ \<Rightarrow> (cs, out, h)))"

text \<open>The line the catch clause writes to \<^verbatim>\<open>std::cerr\<close>, as it stands in the list of calls.\<close>

definition caught :: "string \<Rightarrow> call" where
  "caught what = Cerr (''Caught exception in event handler: '' @ what)"

text \<open>
  The code of the widgets is not part of the three source files: it is a parameter. A virtual
  event method takes the heap and gives an outcome and the heap it leaves; \<^verbatim>\<open>findWidget\<close> only
  reads. \<open>mResizeCallback\<close> is the \<^verbatim>\<open>std::function\<close> member, \<open>None\<close> when it is empty.
\<close>

record callbacks =
  Widget_findWidget :: "heap \<Rightarrow> Vector2i \<Rightarrow> widget option"
  Widget_mouseDragEvent ::
    "widget \<Rightarrow> Vector2i \<Rightarrow> Vector2i \<Rightarrow> int \<Rightarrow> int \<Rightarrow> heap \<Rightarrow> bool outcome \<times> heap"
  Widget_mouseMotionEvent ::
    "widget \<Rightarrow> Vector2i \<Rightarrow> Vector2i \<Rightarrow> int \<Rightarrow> int \<Rightarrow> heap \<Rightarrow> bool outcome \<times> heap"
  Widget_mouseButtonEvent ::
    "widget \<Rightarrow> Vector2i \<Rightarrow> nat \<Rightarrow> bool \<Rightarrow> int \<Rightarrow> heap \<Rightarrow> bool outcome \<times> heap"
  Widget_scrollEvent :: "widget \<Rightarrow> Vector2i \<Rightarrow> real Vector \<Rightarrow> heap \<Rightarrow> bool outcome \<times> heap"
  Widget_keyboardEvent ::
    "widget \<Rightarrow> int \<Rightarrow> int \<Rightarrow> int \<Rightarrow> int \<Rightarrow> heap \<Rightarrow> bool outcome \<times> heap"
  Widget_keyboardCharacterEvent :: "widget \<Rightarrow> nat \<Rightarrow> heap \<Rightarrow> bool outcome \<times> heap"
  Widget_focusEvent :: "widget \<Rightarrow> bool \<Rightarrow> heap \<Rightarrow> bool outcome \<times> heap"
  Screen_dropEvent :: "string list \<Rightarrow> heap \<Rightarrow> bool outcome \<times> heap"
  mResizeCallback :: "(Vector2i \<Rightarrow> heap \<Rightarrow> unit outcome \<times> heap) option"

text \<open>
  What depends on the platform and on floating point is a parameter as well: \<open>pixelScaled\<close> is
  \<^verbatim>\<open>defined(_WIN32) || defined(__linux__)\<close>, \<open>intOfQuotient x r\<close> is \<^verbatim>\<open>(int) (x / r)\<close> for a
  double \<open>x\<close> and the float \<open>r\<close>, \<open>intOfDouble x\<close> is \<^verbatim>\<open>(int) x\<close>, and \<open>divideSize v r\<close> is the
  value of \<^verbatim>\<open>v\<close> after \<^verbatim>\<open>v /= r\<close>.
\<close>

record platform =
  pixelScaled :: bool
  intOfQuotient :: "real \<Rightarrow> real \<Rightarrow> int"
  intOfDouble :: "real \<Rightarrow> int"
  divideSize :: "Vector2i \<Rightarrow> real \<Rightarrow> Vector2i"

text \<open>A virtual call, written to the list of calls with the arguments it was given.\<close>

definition call_mouseDragEvent ::
  "callbacks \<Rightarrow> widget \<Rightarrow> Vector2i \<Rightarrow> Vector2i \<Rightarrow> int \<Rightarrow> int \<Rightarrow> heap \<Rightarrow> bool run" where
  "call_mouseDragEvent cb w p rel button modifiers h =
     invoke (MouseDragEvent w p rel button modifiers)
       (Widget_mouseDragEvent cb w p rel button modifiers h)"

definition call_mouseMotionEvent ::
  "callbacks \<Rightarrow> widget \<Rightarrow> Vector2i \<Rightarrow> Vector2i \<Rightarrow> int \<Rightarrow> int \<Rightarrow> heap \<Rightarrow> bool run" where
  "call_mouseMotionEvent cb w p rel button modifiers h =
     invoke (MouseMotionEvent w p rel button modifiers)
       (Widget_mouseMotionEvent cb w p rel button modifiers h)"

definition call_mouseButtonEvent ::
  "callbacks \<Rightarrow> widget \<Rightarrow> Vector2i \<Rightarrow> nat \<Rightarrow> bool \<Rightarrow> int \<Rightarrow> heap \<Rightarrow> bool run" where
  "call_mouseButtonEvent cb w p button down modifiers h =
     invoke (MouseButtonEvent w p button down modifiers)
       (Widget_mouseButtonEvent cb w p button down modifiers h)"

definition call_scrollEvent ::
  "callbacks \<Rightarrow> widget \<Rightarrow> Vector2i \<Rightarrow> real Vector \<Rightarrow> heap \<Rightarrow> bool run" where
  "call_scrollEvent cb w p rel h = invoke (ScrollEvent w p rel) (Widget_scrollEvent cb w p rel h)"

definition call_keyboardEvent ::
  "callbacks \<Rightarrow> int \<Rightarrow> int \<Rightarrow> int \<Rightarrow> int \<Rightarrow> widget \<Rightarrow> heap \<Rightarrow> bool run" where
  "call_keyboardEvent cb key scancode action modifiers w h =
     invoke (KeyboardEvent w key scancode action modifiers)
       (Widget_keyboardEvent cb w key scancode action modifiers h)"

definition call_keyboardCharacterEvent :: "callbacks \<Rightarrow> nat \<Rightarrow> widget \<Rightarrow> heap \<Rightarrow> bool run" where
  "call_keyboardCharacterEvent cb codepoint w h =
     invoke (KeyboardCharacterEvent w codepoint) (Widget_keyboardCharacterEvent cb w codepoint h)"

definition call_focusEvent :: "callbacks \<Rightarrow> widget \<Rightarrow> bool \<Rightarrow> heap \<Rightarrow> bool run" where
  "call_focusEvent cb w focused h = invoke (FocusEvent w focused) (Widget_focusEvent cb w focused h)"

definition call_dropEvent :: "callbacks \<Rightarrow> string list \<Rightarrow> heap \<Rightarrow> bool run" where
  "call_dropEvent cb filenames h = invoke (DropEvent filenames) (Screen_dropEvent cb filenames h)"

section \<open>screen.cpp: the operations\<close>

subsection \<open>\<^verbatim>\<open>Screen::keyboardEvent\<close> and \<^verbatim>\<open>Screen::keyboardCharacterEvent\<close>\<close>

text \<open>
  Both methods run the same loop, \<^verbatim>\<open>for (auto it = mFocusPath.rbegin() + 1; it !=
  mFocusPath.rend(); ++it) if ((*it)->focused() && (*it)->event(...)) return true;\<close>, over the
  widgets the iterator visits. The iterators walk the vector as it was when the loop started
  (a callback that changes \<^verbatim>\<open>mFocusPath\<close> meanwhile invalidates them); \<^verbatim>\<open>focused()\<close> is read
  from the heap of the moment.
\<close>

fun offerFocused :: "(widget \<Rightarrow> heap \<Rightarrow> bool run) \<Rightarrow> widget list \<Rightarrow> heap \<Rightarrow> bool run" where
  "offerFocused event [] h = ([], Returns False, h)"
| "offerFocused event (w # ws) h =
     (if wFocused h w then
        andThen (event w h)
          (\<lambda>consumed h'. if consumed then ([], Returns True, h') else offerFocused event ws h')
      else offerFocused event ws h)"

definition keyboardEvent ::
  "callbacks \<Rightarrow> int \<Rightarrow> int \<Rightarrow> int \<Rightarrow> int \<Rightarrow> heap \<Rightarrow> bool run" where
  "keyboardEvent cb key scancode action modifiers h =
     (if length (mFocusPath h) > 0 then
        offerFocused (call_keyboardEvent cb key scancode action modifiers)
          (tl (rev (mFocusPath h))) h
      else ([], Returns False, h))"

definition keyboardCharacterEvent :: "callbacks \<Rightarrow> nat \<Rightarrow> heap \<Rightarrow> bool run" where
  "keyboardCharacterEvent cb codepoint h =
     (if length (mFocusPath h) > 0 then
        offerFocused (call_keyboardCharacterEvent cb codepoint) (tl (rev (mFocusPath h))) h
      else ([], Returns False, h))"

subsection \<open>\<^verbatim>\<open>Screen::resizeEvent\<close>\<close>

definition resizeEvent :: "callbacks \<Rightarrow> Vector2i \<Rightarrow> heap \<Rightarrow> bool run" where
  "resizeEvent cb size' h =
     (case mResizeCallback cb of
        Some f \<Rightarrow>
          andThen (invoke (ResizeCallback size') (f size' h)) (\<lambda>_ h'. ([], Returns True, h'))
      | None \<Rightarrow> ([], Returns False, h))"

subsection \<open>\<^verbatim>\<open>Screen::cursorPosCallbackEvent\<close>\<close>

text \<open>The point \<^verbatim>\<open>p\<close> as it is constructed, before the \<^verbatim>\<open>try\<close> block.\<close>

definition logicalPos :: "platform \<Rightarrow> heap \<Rightarrow> real \<Rightarrow> real \<Rightarrow> Vector2i" where
  "logicalPos pf h x y =
     (if pixelScaled pf
      then [intOfQuotient pf x (mPixelRatio h), intOfQuotient pf y (mPixelRatio h)]
      else [intOfDouble pf x, intOfDouble pf y])"

text \<open>
  \<^verbatim>\<open>if (widget != nullptr && widget->cursor() != mCursor) mCursor = widget->cursor();\<close>
\<close>

definition updateCursor :: "widget option \<Rightarrow> heap \<Rightarrow> heap" where
  "updateCursor widget h =
     (case widget of
        None \<Rightarrow> h
      | Some w \<Rightarrow> if wCursor h w \<noteq> mCursor h then h\<lparr>mCursor := wCursor h w\<rparr> else h)"

text \<open>
  \<^verbatim>\<open>mDragWidget\<close> together with \<^verbatim>\<open>mDragWidget->parent()->absolutePosition()\<close>; \<open>None\<close> where
  the expression dereferences a null pointer.
\<close>

definition dragOrigin :: "heap \<Rightarrow> (widget \<times> Vector2i) option" where
  "dragOrigin h =
     (case mDragWidget h of
        None \<Rightarrow> None
      | Some d \<Rightarrow>
          (case wParent h d of
             None \<Rightarrow> None
           | Some parent \<Rightarrow> Some (d, wAbsolutePosition h parent)))"

text \<open>The \<^verbatim>\<open>try\<close> block, from \<^verbatim>\<open>p -= Vector2i(1, 2)\<close> to \<^verbatim>\<open>return ret\<close>.\<close>

definition cursorPosTry :: "callbacks \<Rightarrow> Vector2i \<Rightarrow> heap \<Rightarrow> bool run" where
  "cursorPosTry cb p0 h =
     (let p = Vector_minus 2 p0 [1, 2] in
      andThen
        (if \<not> mDragActive h then
           ([FindWidget p], Returns False, updateCursor (Widget_findWidget cb h p) h)
         else
           (case dragOrigin h of
              None \<Rightarrow> ([], Undefined, h)
            | Some (d, origin) \<Rightarrow>
                call_mouseDragEvent cb d (Vector_minus 2 p origin) (Vector_minus 2 p (mMousePos h))
                  (mMouseState h) (mModifiers h) h))
        (\<lambda>ret h1.
           andThen
             (if \<not> ret then
                call_mouseMotionEvent cb (thisScreen h1) p (Vector_minus 2 p (mMousePos h1))
                  (mMouseState h1) (mModifiers h1) h1
              else ([], Returns ret, h1))
             (\<lambda>ret h2. ([], Returns ret, h2\<lparr>mMousePos := p\<rparr>))))"

text \<open>\<open>now\<close> is the value of \<^verbatim>\<open>getTime()\<close>.\<close>

definition cursorPosCallbackEvent ::
  "callbacks \<Rightarrow> platform \<Rightarrow> real \<Rightarrow> real \<Rightarrow> real \<Rightarrow> heap \<Rightarrow> bool run" where
  "cursorPosCallbackEvent cb pf x y now h =
     tryCatch (cursorPosTry cb (logicalPos pf h x y) (h\<lparr>mLastInteraction := now\<rparr>))"

subsection \<open>\<^verbatim>\<open>Screen::moveWindowToFront\<close>\<close>

text \<open>
  The first \<^verbatim>\<open>for\<close> loop of the \<^verbatim>\<open>do\<close> body: \<^verbatim>\<open>baseIndex\<close> ends as the last index that holds
  \<^verbatim>\<open>window\<close>, or as it started.
\<close>

fun findBaseIndex :: "widget \<Rightarrow> widget list \<Rightarrow> nat \<Rightarrow> nat \<Rightarrow> nat" where
  "findBaseIndex window [] index baseIndex = baseIndex"
| "findBaseIndex window (c # cs) index baseIndex =
     findBaseIndex window cs (Suc index) (if c = window then index else baseIndex)"

text \<open>
  The second \<^verbatim>\<open>for\<close> loop: the first child that is a popup of \<^verbatim>\<open>window\<close> at an index below
  \<^verbatim>\<open>baseIndex\<close>, where the loop calls \<^verbatim>\<open>moveWindowToFront(pw)\<close> and breaks.
\<close>

fun findPopupBefore :: "(widget \<Rightarrow> bool) \<Rightarrow> nat \<Rightarrow> widget list \<Rightarrow> nat \<Rightarrow> widget option" where
  "findPopupBefore popupOfWindow baseIndex [] index = None"
| "findPopupBefore popupOfWindow baseIndex (c # cs) index =
     (if popupOfWindow c \<and> index < baseIndex then Some c
      else findPopupBefore popupOfWindow baseIndex cs (Suc index))"

text \<open>
  The \<^verbatim>\<open>do { ... } while (changed)\<close> loop on \<^verbatim>\<open>mChildren\<close>. Where the second loop finds a popup
  the body calls \<^verbatim>\<open>moveWindowToFront(pw)\<close>, which erases \<^verbatim>\<open>pw\<close>, pushes it back and runs its own
  loop, and then the body runs again. Nothing bounds the recursion, so the function is partial:
  \<open>None\<close> is a call that never returns.
\<close>

partial_function (option) restabilize ::
  "(widget \<Rightarrow> widget \<Rightarrow> bool) \<Rightarrow> widget \<Rightarrow> widget list \<Rightarrow> widget list option" where
  "restabilize popupOf window children =
     (let baseIndex = findBaseIndex window children 0 0 in
      case findPopupBefore (\<lambda>c. popupOf c window) baseIndex children 0 of
        None \<Rightarrow> Some children
      | Some pw \<Rightarrow>
          Option.bind (restabilize popupOf pw (removeAll pw children @ [pw]))
            (restabilize popupOf window))"

declare restabilize.simps [code]

text \<open>\<^verbatim>\<open>mChildren.erase(std::remove(...), mChildren.end()); mChildren.push_back(window);\<close> and the loop.\<close>

definition moveToFront ::
  "(widget \<Rightarrow> widget \<Rightarrow> bool) \<Rightarrow> widget \<Rightarrow> widget list \<Rightarrow> widget list option" where
  "moveToFront popupOf window children =
     restabilize popupOf window (removeAll window children @ [window])"

definition moveWindowToFront :: "widget \<Rightarrow> heap \<Rightarrow> heap option" where
  "moveWindowToFront window h =
     map_option (\<lambda>children. h\<lparr>mChildren := children\<rparr>)
       (moveToFront (isPopupOf h) window (mChildren h))"

text \<open>
  The anchoring of the popups among the widgets \<open>S\<close>: the pairs of a popup and its parent window.
\<close>

definition anchoring :: "(widget \<Rightarrow> widget \<Rightarrow> bool) \<Rightarrow> widget set \<Rightarrow> (widget \<times> widget) set" where
  "anchoring popupOf S = {(pw, window). pw \<in> S \<and> popupOf pw window}"

subsection \<open>\<^verbatim>\<open>Screen::updateFocus\<close>\<close>

text \<open>\<^verbatim>\<open>for (auto w: mFocusPath) { if (!w->focused()) continue; w->focusEvent(false); }\<close>\<close>

fun defocusPath :: "callbacks \<Rightarrow> widget list \<Rightarrow> heap \<Rightarrow> unit run" where
  "defocusPath cb [] h = ([], Returns (), h)"
| "defocusPath cb (w # ws) h =
     (if \<not> wFocused h w then defocusPath cb ws h
      else andThen (call_focusEvent cb w False h) (\<lambda>_ h'. defocusPath cb ws h'))"

text \<open>
  \<^verbatim>\<open>while (widget) { mFocusPath.push_back(widget); if (dynamic_cast<Window *>(widget)) window =
  widget; widget = widget->parent(); }\<close>. The loop follows the parent pointers for as long as
  there is one; \<open>None\<close> is a loop that never ends.
\<close>

partial_function (option) climbParents ::
  "(widget \<Rightarrow> widget option) \<Rightarrow> (widget \<Rightarrow> bool) \<Rightarrow> widget option \<Rightarrow> widget list \<Rightarrow>
   widget option \<Rightarrow> (widget list \<times> widget option) option" where
  "climbParents parent isWin widget path window =
     (case widget of
        None \<Rightarrow> Some (path, window)
      | Some w \<Rightarrow>
          climbParents parent isWin (parent w) (path @ [w]) (if isWin w then Some w else window))"

declare climbParents.simps [code]

text \<open>\<^verbatim>\<open>for (auto it = mFocusPath.rbegin(); it != mFocusPath.rend(); ++it) (*it)->focusEvent(true);\<close>\<close>

fun focusPath :: "callbacks \<Rightarrow> widget list \<Rightarrow> heap \<Rightarrow> unit run" where
  "focusPath cb [] h = ([], Returns (), h)"
| "focusPath cb (w # ws) h = andThen (call_focusEvent cb w True h) (\<lambda>_ h'. focusPath cb ws h')"

definition updateFocus :: "callbacks \<Rightarrow> widget option \<Rightarrow> heap \<Rightarrow> unit run" where
  "updateFocus cb widget h =
     andThen (defocusPath cb (mFocusPath h) h)
       (\<lambda>_ h1.
          case climbParents (wParent h1) (isWindow h1) widget [] None of
            None \<Rightarrow> ([], Diverges, h1\<lparr>mFocusPath := []\<rparr>)
          | Some (path, window) \<Rightarrow>
              andThen (focusPath cb (rev path) (h1\<lparr>mFocusPath := path\<rparr>))
                (\<lambda>_ h2.
                   case window of
                     None \<Rightarrow> ([], Returns (), h2)
                   | Some w \<Rightarrow>
                       (case moveWindowToFront w h2 of
                          None \<Rightarrow> ([], Diverges, h2)
                        | Some h3 \<Rightarrow> ([], Returns (), h3))))"

subsection \<open>\<^verbatim>\<open>Screen::mouseButtonCallbackEvent\<close> and \<^verbatim>\<open>Screen::scrollCallbackEvent\<close>\<close>

text \<open>
  The test both handlers start their \<^verbatim>\<open>try\<close> block with: \<^verbatim>\<open>if (mFocusPath.size() > 1) { const
  Window *window = dynamic_cast<Window *>(mFocusPath[mFocusPath.size() - 2]); if (window &&
  window->modal()) { if (!window->contains(mMousePos)) return false; } }\<close>
\<close>

definition modalBlocks :: "heap \<Rightarrow> bool" where
  "modalBlocks h =
     (if length (mFocusPath h) > 1 then
        (let window = mFocusPath h ! (length (mFocusPath h) - 2) in
         isWindow h window \<and> wModal h window \<and> \<not> wContains h window (mMousePos h))
      else False)"

text \<open>
  The \<^verbatim>\<open>try\<close> block of \<^verbatim>\<open>mouseButtonCallbackEvent\<close>. \<open>button\<close> is the shift count of
  \<^verbatim>\<open>1 << button\<close>.
\<close>

definition mouseButtonTry :: "callbacks \<Rightarrow> nat \<Rightarrow> int \<Rightarrow> heap \<Rightarrow> bool run" where
  "mouseButtonTry cb button action h =
     (if modalBlocks h then ([], Returns False, h)
      else
        let h1 = h\<lparr>mMouseState :=
                     (if action = 1 then mMouseState h OR push_bit button 1
                      else mMouseState h AND NOT (push_bit button 1))\<rparr>;
            dropWidget = Widget_findWidget cb h1 (mMousePos h1)
        in
        logged [FindWidget (mMousePos h1)]
          (andThen
             (if mDragActive h1 \<and> action = 0 \<and> dropWidget \<noteq> mDragWidget h1 then
                (case dragOrigin h1 of
                   None \<Rightarrow> ([], Undefined, h1)
                 | Some (d, origin) \<Rightarrow>
                     call_mouseButtonEvent cb d (Vector_minus 2 (mMousePos h1) origin) button False
                       (mModifiers h1) h1)
              else ([], Returns False, h1))
             (\<lambda>_ h2.
                let h3 = updateCursor dropWidget h2 in
                andThen
                  (if action = 1 \<and> (button = 1 \<or> button = 2) then
                     (let found = Widget_findWidget cb h3 (mMousePos h3);
                          dragWidget = (if found = Some (thisScreen h3) then None else found);
                          h4 = h3\<lparr>mDragWidget := dragWidget, mDragActive := (dragWidget \<noteq> None)\<rparr>
                      in logged [FindWidget (mMousePos h3)]
                           (if \<not> mDragActive h4 then updateFocus cb None h4
                            else ([], Returns (), h4)))
                   else ([], Returns (), h3\<lparr>mDragActive := False, mDragWidget := None\<rparr>))
                  (\<lambda>_ h5. call_mouseButtonEvent cb (thisScreen h5) (mMousePos h5) button
                              (action = 1) (mModifiers h5) h5))))"

definition mouseButtonCallbackEvent ::
  "callbacks \<Rightarrow> nat \<Rightarrow> int \<Rightarrow> int \<Rightarrow> real \<Rightarrow> heap \<Rightarrow> bool run" where
  "mouseButtonCallbackEvent cb button action modifiers now h =
     tryCatch
       (mouseButtonTry cb button action (h\<lparr>mModifiers := modifiers, mLastInteraction := now\<rparr>))"

definition scrollTry :: "callbacks \<Rightarrow> real \<Rightarrow> real \<Rightarrow> heap \<Rightarrow> bool run" where
  "scrollTry cb x y h =
     (if modalBlocks h then ([], Returns False, h)
      else call_scrollEvent cb (thisScreen h) (mMousePos h) [x, y] h)"

definition scrollCallbackEvent :: "callbacks \<Rightarrow> real \<Rightarrow> real \<Rightarrow> real \<Rightarrow> heap \<Rightarrow> bool run" where
  "scrollCallbackEvent cb x y now h = tryCatch (scrollTry cb x y (h\<lparr>mLastInteraction := now\<rparr>))"

subsection \<open>The other entry points\<close>

definition keyCallbackEvent ::
  "callbacks \<Rightarrow> int \<Rightarrow> int \<Rightarrow> int \<Rightarrow> int \<Rightarrow> real \<Rightarrow> heap \<Rightarrow> bool run" where
  "keyCallbackEvent cb key scancode action mods now h =
     tryCatch (keyboardEvent cb key scancode action mods (h\<lparr>mLastInteraction := now\<rparr>))"

definition charCallbackEvent :: "callbacks \<Rightarrow> nat \<Rightarrow> real \<Rightarrow> heap \<Rightarrow> bool run" where
  "charCallbackEvent cb codepoint now h =
     tryCatch (keyboardCharacterEvent cb codepoint (h\<lparr>mLastInteraction := now\<rparr>))"

text \<open>
  \<^verbatim>\<open>dropCallbackEvent(count, filenames)\<close> copies the first \<open>count\<close> names and returns
  \<^verbatim>\<open>dropEvent(arg)\<close>; reading past the array is undefined.
\<close>

definition dropCallbackEvent :: "callbacks \<Rightarrow> nat \<Rightarrow> string list \<Rightarrow> heap \<Rightarrow> bool run" where
  "dropCallbackEvent cb count filenames h =
     (if count \<le> length filenames
      then call_dropEvent cb (map (\<lambda>i. filenames ! i) [0..<count]) h
      else ([], Undefined, h))"

text \<open>
  \<^verbatim>\<open>resizeCallbackEvent(int, int)\<close> ignores its arguments and reads the size with
  \<^verbatim>\<open>puglGetSize\<close>: \<open>nativeSize\<close> is what it reads. \<open>scaledSize\<close> is the local \<^verbatim>\<open>size\<close> after the
  conditional \<^verbatim>\<open>size /= mPixelRatio\<close>.
\<close>

definition scaledSize :: "platform \<Rightarrow> heap \<Rightarrow> Vector2i \<Rightarrow> Vector2i" where
  "scaledSize pf h nativeSize =
     (if pixelScaled pf then divideSize pf nativeSize (mPixelRatio h) else nativeSize)"

definition resizeCallbackEvent ::
  "callbacks \<Rightarrow> platform \<Rightarrow> Vector2i \<Rightarrow> real \<Rightarrow> heap \<Rightarrow> bool run" where
  "resizeCallbackEvent cb pf nativeSize now h =
     (let fbSize = nativeSize;
          size' = scaledSize pf h nativeSize
      in
      if Vector_eq 2 fbSize [0, 0] \<or> Vector_eq 2 size' [0, 0] then ([], Returns False, h)
      else
        (let h1 = h\<lparr>mFBSize := fbSize, mSize := size', mLastInteraction := now\<rparr>
         in tryCatch (resizeEvent cb (mSize h1) h1)))"

subsection \<open>\<^verbatim>\<open>Screen::disposeWindow\<close>\<close>

text \<open>
  Modelled from the spec: \<^verbatim>\<open>Widget::removeChild\<close> is defined outside the three source files; it
  "detaches the window from the tree", that is from the list of children.
\<close>

definition removeChild :: "widget \<Rightarrow> heap \<Rightarrow> heap" where
  "removeChild widget h = h\<lparr>mChildren := removeAll widget (mChildren h)\<rparr>"

definition disposeWindow :: "widget \<Rightarrow> heap \<Rightarrow> heap" where
  "disposeWindow window h =
     (let h1 = (if window \<in> set (mFocusPath h) then h\<lparr>mFocusPath := []\<rparr> else h);
          h2 = (if mDragWidget h1 = Some window then h1\<lparr>mDragWidget := None\<rparr> else h1)
      in removeChild window h2)"

section \<open>Concrete scenes\<close>

text \<open>
  Heaps, callbacks and platforms on which the operations are run below. \<open>quiet\<close> is widget code
  that consumes nothing and never throws; its \<^verbatim>\<open>focusEvent\<close> stores the flag, as the base class
  does. \<open>blank\<close> is a Screen with no widgets.
\<close>

definition quiet :: callbacks where
  "quiet = \<lparr>
     Widget_findWidget = (\<lambda>h p. None),
     Widget_mouseDragEvent = (\<lambda>w p rel b m h. (Returns False, h)),
     Widget_mouseMotionEvent = (\<lambda>w p rel b m h. (Returns False, h)),
     Widget_mouseButtonEvent = (\<lambda>w p b d m h. (Returns False, h)),
     Widget_scrollEvent = (\<lambda>w p rel h. (Returns False, h)),
     Widget_keyboardEvent = (\<lambda>w k s a m h. (Returns False, h)),
     Widget_keyboardCharacterEvent = (\<lambda>w c h. (Returns False, h)),
     Widget_focusEvent = (\<lambda>w f h. (Returns False, h\<lparr>wFocused := (wFocused h)(w := f)\<rparr>)),
     Screen_dropEvent = (\<lambda>fs h. (Returns False, h)),
     mResizeCallback = None \<rparr>"

definition blank :: heap where
  "blank = \<lparr>
     wclass = (\<lambda>w. WidgetClass), wParent = (\<lambda>w. None), wFocused = (\<lambda>w. False),
     wCursor = (\<lambda>w. 0), wContains = (\<lambda>w p. False), wAbsolutePosition = (\<lambda>w. [0, 0]),
     wModal = (\<lambda>w. False), wParentWindow = (\<lambda>w. None),
     thisScreen = 0, mChildren = [], mFocusPath = [], mMousePos = [0, 0], mMouseState = 0,
     mModifiers = 0, mDragActive = False, mDragWidget = None, mCursor = 0,
     mLastInteraction = 0, mSize = [0, 0], mFBSize = [0, 0], mPixelRatio = 1 \<rparr>"

text \<open>
  The C++ cast \<^verbatim>\<open>(int)\<close> of a double discards the fraction: it rounds toward zero. The two
  platforms below, one that does not scale and one that does, compute with exact division and
  this cast.
\<close>

definition toward_zero :: "real \<Rightarrow> int" where
  "toward_zero x = (if x < 0 then \<lceil>x\<rceil> else \<lfloor>x\<rfloor>)"

definition unscaled :: platform where
  "unscaled = \<lparr> pixelScaled = False, intOfQuotient = (\<lambda>x r. toward_zero (x / r)),
                 intOfDouble = toward_zero, divideSize = (\<lambda>v r. v) \<rparr>"

definition scaled :: platform where
  "scaled = \<lparr> pixelScaled = True, intOfQuotient = (\<lambda>x r. toward_zero (x / r)),
               intOfDouble = toward_zero,
               divideSize = (\<lambda>v r. map (\<lambda>c. toward_zero (real_of_int c / r)) v) \<rparr>"

text \<open>
  Four windows on the screen, in the order 3, 2, 1, 4: popup 2 is anchored to window 1 and
  popup 3 to popup 2.
\<close>

definition stacked :: heap where
  "stacked = blank\<lparr>
     wclass := (\<lambda>w. if w = 2 \<or> w = 3 then PopupClass else WindowClass),
     wParentWindow := (\<lambda>w. if w = 2 then Some 1 else if w = 3 then Some 2 else None),
     mChildren := [3, 2, 1, 4] \<rparr>"

text \<open>
  A focused leaf 1 inside the modal window 2 on the screen 0; the window contains no point.
\<close>

definition modalScene :: heap where
  "modalScene = blank\<lparr>
     wclass := (\<lambda>w. if w = 2 then WindowClass else WidgetClass),
     wModal := (\<lambda>w. w = 2),
     wFocused := (\<lambda>w. w = 1 \<or> w = 2),
     mFocusPath := [1, 2, 0] \<rparr>"

text \<open>
  The widget 1 inside the window 2, a child of the screen 0, before anything has the focus, and
  the same tree after \<^verbatim>\<open>updateFocus\<close> has given the focus to the widget 1.
\<close>

definition tree :: heap where
  "tree = blank\<lparr>
     wclass := (\<lambda>w. if w = 2 then WindowClass else WidgetClass),
     wParent := (\<lambda>w. if w = 1 then Some 2 else if w = 2 then Some 0 else None),
     mChildren := [3, 2] \<rparr>"


text \<open>Widgets that consume every key, and widgets of which only the leaf 1 does.\<close>

definition consumeAll :: callbacks where
  "consumeAll = quiet\<lparr>
     Widget_keyboardEvent := (\<lambda>w k s a m h. (Returns True, h)),
     Widget_keyboardCharacterEvent := (\<lambda>w c h. (Returns True, h)) \<rparr>"


text \<open>Application code whose handlers throw a \<^verbatim>\<open>std::runtime_error\<close>.\<close>

definition throwing :: callbacks where
  "throwing = quiet\<lparr>
     Screen_dropEvent := (\<lambda>fs h. (Throws (StdException ''drop failed''), h)),
     Widget_keyboardEvent := (\<lambda>w k s a m h. (Throws (StdException ''key failed''), h)),
     Widget_mouseMotionEvent := (\<lambda>w p rel b m h. (Throws (StdException ''motion failed''), h)) \<rparr>"

text \<open>
  The pointer is over the window 2: a press of button 1 on \<open>tree\<close> starts to drag the window.
\<close>

definition hitsWindow :: callbacks where
  "hitsWindow = quiet\<lparr> Widget_findWidget := (\<lambda>h p. Some 2) \<rparr>"

definition pressed :: heap where
  "pressed = heap_of (mouseButtonCallbackEvent hitsWindow 1 1 0 7 tree)"

text \<open>A resize hook that returns.\<close>

definition resizeHook :: callbacks where
  "resizeHook = quiet\<lparr> mResizeCallback := Some (\<lambda>sz h. (Returns (), h)) \<rparr>"

text \<open>
  The widget 1 is being dragged; its parent 2 is at (100, 50), the pointer was last seen at
  (110, 60) and a logical pixel is two pixels wide.
\<close>

definition dragScene :: heap where
  "dragScene = blank\<lparr>
     wParent := (\<lambda>w. if w = 1 then Some 2 else if w = 2 then Some 0 else None),
     wAbsolutePosition := (\<lambda>w. if w = 2 then [100, 50] else [0, 0]),
     mMousePos := [110, 60], mPixelRatio := 2,
     mDragActive := True, mDragWidget := Some 1 \<rparr>"

text \<open>Widgets that consume every drag event, and widgets whose drag event throws.\<close>

definition dragConsumes :: callbacks where
  "dragConsumes = quiet\<lparr> Widget_mouseDragEvent := (\<lambda>w p rel b m h. (Returns True, h)) \<rparr>"

definition dragThrows :: callbacks where
  "dragThrows = quiet\<lparr>
     Widget_mouseDragEvent := (\<lambda>w p rel b m h. (Throws (StdException ''drag failed''), h)) \<rparr>"


section \<open>The keyboard routing as the specification words it\<close>


section \<open>Notions used in the proofs\<close>

text \<open>\<open>represents R C m f\<close>: the matrix \<open>m\<close> has the entries \<open>f i j\<close>.\<close>

definition represents :: "nat \<Rightarrow> nat \<Rightarrow> 'a Matrix \<Rightarrow> (nat \<Rightarrow> nat \<Rightarrow> 'a) \<Rightarrow> bool" where
  "represents R C m f = (Matrix_dims R C m \<and> (\<forall>i<R. \<forall>j<C. m ! i ! j = f i j))"

text \<open>\<open>once x xs\<close>: the list \<open>xs\<close> holds \<open>x\<close> exactly once.\<close>

definition once :: "'a \<Rightarrow> 'a list \<Rightarrow> bool" where
  "once x xs = (\<exists>pre post. xs = pre @ x # post \<and> x \<notin> set pre \<and> x \<notin> set post)"

chapter \<open>Properties\<close>

section \<open>matrix.h: the identity is a left unit of the product\<close>

lemma represents_set:
  assumes "represents R C m f" "r < R" "c < C"
  shows "represents R C (Matrix_set m r c v) (\<lambda>i j. if i = r \<and> j = c then v else f i j)"
  using assms
  by (auto simp: represents_def Matrix_dims_def Matrix_set_def list_all_length nth_list_update)

lemma represents_cong:
  "represents R C m f \<Longrightarrow> (\<And>i j. i < R \<Longrightarrow> j < C \<Longrightarrow> f i j = g i j) \<Longrightarrow> represents R C m g"
  by (simp add: represents_def)

lemma represents_eq:
  assumes "represents R C a f" "represents R C b f"
  shows "a = b"
proof (rule nth_equalityI)
  show "length a = length b" using assms by (simp add: represents_def Matrix_dims_def)
next
  fix i assume i: "i < length a"
  then have iR: "i < R" using assms by (simp add: represents_def Matrix_dims_def)
  show "a ! i = b ! i"
  proof (rule nth_equalityI)
    show "length (a ! i) = length (b ! i)"
      using assms iR by (simp add: represents_def Matrix_dims_def list_all_length)
  next
    fix j assume "j < length (a ! i)"
    then have "j < C" using assms iR by (simp add: represents_def Matrix_dims_def list_all_length)
    then show "a ! i ! j = b ! i ! j" using assms iR by (simp add: represents_def)
  qed
qed

lemma represents_self: "Matrix_dims R C m \<Longrightarrow> represents R C m (\<lambda>i j. m ! i ! j)"
  by (simp add: represents_def)

lemma zero_row_loop:
  assumes "represents R C m f" "r < R" "n \<le> C"
  shows "represents R C (fold (\<lambda>c m. Matrix_set m r c 0) [0..<n] m)
           (\<lambda>i j. if i = r \<and> j < n then 0 else f i j)"
  using assms(3)
proof (induction n)
  case 0
  then show ?case using assms(1) by simp
next
  case (Suc n)
  then have "represents R C (fold (\<lambda>c m. Matrix_set m r c 0) [0..<n] m)
           (\<lambda>i j. if i = r \<and> j < n then 0 else f i j)" by simp
  from represents_set[OF this assms(2), of n 0] Suc.prems
  show ?case by (auto elim!: represents_cong simp: less_Suc_eq)
qed

lemma setZero_represents:
  assumes "Matrix_dims R C m"
  shows "represents R C (setZero R C m) (\<lambda>i j. 0)"
proof -
  have "n \<le> R \<Longrightarrow> represents R C
          (fold (\<lambda>r m. fold (\<lambda>c m. Matrix_set m r c 0) [0..<C] m) [0..<n] m)
          (\<lambda>i j. if i < n then 0 else m ! i ! j)" for n
  proof (induction n)
    case 0
    then show ?case using represents_self[OF assms] by simp
  next
    case (Suc n)
    then have "represents R C
          (fold (\<lambda>r m. fold (\<lambda>c m. Matrix_set m r c 0) [0..<C] m) [0..<n] m)
          (\<lambda>i j. if i < n then 0 else m ! i ! j)" by simp
    from zero_row_loop[OF this, of n C] Suc.prems
    show ?case by (auto elim!: represents_cong simp: less_Suc_eq)
  qed
  from this[of R] show ?thesis
    by (auto elim!: represents_cong simp: setZero_def)
qed

lemma setIdentity_represents:
  assumes "Matrix_dims R C m"
  shows "represents R C (setIdentity R C m) (\<lambda>i j. if i = j then 1 else 0)"
proof -
  have "n \<le> min R C \<Longrightarrow> represents R C
          (fold (\<lambda>i m. Matrix_set m i i 1) [0..<n] (setZero R C m))
          (\<lambda>i j. if i = j \<and> i < n then 1 else 0)" for n
  proof (induction n)
    case 0
    then show ?case using setZero_represents[OF assms] by simp
  next
    case (Suc n)
    then have "represents R C
          (fold (\<lambda>i m. Matrix_set m i i 1) [0..<n] (setZero R C m))
          (\<lambda>i j. if i = j \<and> i < n then 1 else 0)" by simp
    from represents_set[OF this, of n n 1] Suc.prems
    show ?case by (auto elim!: represents_cong simp: less_Suc_eq)
  qed
  from this[of "min R C"] show ?thesis
    by (auto elim!: represents_cong simp: setIdentity_def)
qed

lemma Matrix_ctor_represents: "represents R P (Matrix_ctor R P) (\<lambda>i j. 0)"
  by (simp add: represents_def Matrix_dims_def Matrix_ctor_def Vector_ctor_def list_all_length)

lemma times_k_loop:
  fixes a b :: "nat \<Rightarrow> nat \<Rightarrow> 'a::semiring_0"
  assumes "represents R P out f" "i < R" "j < P"
  shows "represents R P
           (fold (\<lambda>k out. Matrix_set out i j (out ! i ! j + lhs ! i ! k * rhs ! k ! j)) [0..<n] out)
           (\<lambda>i' j'. if i' = i \<and> j' = j then f i j + (\<Sum>k<n. lhs ! i ! k * rhs ! k ! j) else f i' j')"
proof (induction n)
  case 0
  then show ?case using assms(1) by (auto elim!: represents_cong)
next
  case (Suc n)
  let ?o = "fold (\<lambda>k out. Matrix_set out i j (out ! i ! j + lhs ! i ! k * rhs ! k ! j)) [0..<n] out"
  have v: "?o ! i ! j = f i j + (\<Sum>k<n. lhs ! i ! k * rhs ! k ! j)"
    using Suc assms(2,3) by (simp add: represents_def)
  from represents_set[OF Suc assms(2,3), of "?o ! i ! j + lhs ! i ! n * rhs ! n ! j"]
  show ?case by (auto elim!: represents_cong simp: v add.assoc)
qed

lemma times_j_loop:
  fixes lhs rhs :: "('a::semiring_0) Matrix"
  assumes "represents R P out f" "i < R" "n \<le> P"
  shows "represents R P
           (fold (\<lambda>j out.
              fold (\<lambda>k out. Matrix_set out i j (out ! i ! j + lhs ! i ! k * rhs ! k ! j)) [0..<C] out)
              [0..<n] out)
           (\<lambda>i' j'. if i' = i \<and> j' < n then f i j' + (\<Sum>k<C. lhs ! i ! k * rhs ! k ! j') else f i' j')"
  using assms(3)
proof (induction n)
  case 0
  then show ?case using assms(1) by (auto elim!: represents_cong)
next
  case (Suc n)
  then have "represents R P
           (fold (\<lambda>j out.
              fold (\<lambda>k out. Matrix_set out i j (out ! i ! j + lhs ! i ! k * rhs ! k ! j)) [0..<C] out)
              [0..<n] out)
           (\<lambda>i' j'. if i' = i \<and> j' < n then f i j' + (\<Sum>k<C. lhs ! i ! k * rhs ! k ! j') else f i' j')"
    by simp
  from times_k_loop[OF this assms(2), of n lhs rhs C] Suc.prems
  show ?case by (auto elim!: represents_cong simp: less_Suc_eq)
qed

lemma times_i_loop:
  fixes lhs rhs :: "('a::semiring_0) Matrix"
  assumes "represents R P out f" "n \<le> R"
  shows "represents R P
           (fold (\<lambda>i out. fold (\<lambda>j out.
              fold (\<lambda>k out. Matrix_set out i j (out ! i ! j + lhs ! i ! k * rhs ! k ! j)) [0..<C] out)
              [0..<P] out) [0..<n] out)
           (\<lambda>i j. if i < n then f i j + (\<Sum>k<C. lhs ! i ! k * rhs ! k ! j) else f i j)"
  using assms(2)
proof (induction n)
  case 0
  then show ?case using assms(1) by (auto elim!: represents_cong)
next
  case (Suc n)
  then have "represents R P
           (fold (\<lambda>i out. fold (\<lambda>j out.
              fold (\<lambda>k out. Matrix_set out i j (out ! i ! j + lhs ! i ! k * rhs ! k ! j)) [0..<C] out)
              [0..<P] out) [0..<n] out)
           (\<lambda>i j. if i < n then f i j + (\<Sum>k<C. lhs ! i ! k * rhs ! k ! j) else f i j)"
    by simp
  from times_j_loop[OF this, of n P lhs rhs C] Suc.prems
  show ?case by (auto elim!: represents_cong simp: less_Suc_eq)
qed

lemma Matrix_times_represents:
  fixes lhs rhs :: "('a::semiring_0) Matrix"
  shows "represents R P (Matrix_times R C P lhs rhs) (\<lambda>i j. \<Sum>k<C. lhs ! i ! k * rhs ! k ! j)"
  using times_i_loop[OF Matrix_ctor_represents, of R R P lhs rhs C]
  by (auto elim!: represents_cong simp: Matrix_times_def)

text \<open>
  C7. For the identity matrix \<open>I\<close> of dimension \<open>C \<times> C\<close>, as \<^verbatim>\<open>setIdentity\<close> leaves it (it runs
  \<^verbatim>\<open>setZero\<close> first), and every matrix \<open>M\<close> of dimension \<open>C \<times> P\<close> over a semiring, the product
  \<open>I * M\<close> computed by \<^verbatim>\<open>operator*\<close> is \<open>M\<close>.
\<close>

theorem identity_times:
  fixes M :: "('a::semiring_1) Matrix"
  assumes "Matrix_dims C C m0" "Matrix_dims C P M"
  shows "Matrix_times C C P (setIdentity C C m0) M = M"
proof (rule represents_eq)
  let ?I = "setIdentity C C m0"
  have I: "\<And>i k. i < C \<Longrightarrow> k < C \<Longrightarrow> ?I ! i ! k = (if i = k then 1 else 0)"
    using setIdentity_represents[OF assms(1)] by (simp add: represents_def)
  have "(\<Sum>k<C. ?I ! i ! k * M ! k ! j) = M ! i ! j" if "i < C" for i j
  proof -
    have "(\<Sum>k<C. ?I ! i ! k * M ! k ! j) = (\<Sum>k<C. if i = k then M ! k ! j else 0)"
      by (rule sum.cong) (use I that in auto)
    also have "\<dots> = M ! i ! j" using that by simp
    finally show ?thesis .
  qed
  then show "represents C P (Matrix_times C C P ?I M) (\<lambda>i j. M ! i ! j)"
    using Matrix_times_represents[of C P C ?I M] by (auto elim!: represents_cong)
  show "represents C P M (\<lambda>i j. M ! i ! j)" by (rule represents_self[OF assms(2)])
qed

theorem identity_times_witness:
  "Matrix_dims 2 2 (Matrix_ctor 2 2 :: int Matrix) \<and> Matrix_dims 2 3 [[1, 2, 3], [4, 5, 6 :: int]] \<and>
   Matrix_times 2 2 3 (setIdentity 2 2 (Matrix_ctor 2 2)) [[1, 2, 3], [4, 5, 6 :: int]] =
     [[1, 2, 3], [4, 5, 6]]"
proof -
  have h1: "Matrix_dims 2 2 (Matrix_ctor 2 2 :: int Matrix)" by code_simp
  have h2: "Matrix_dims 2 3 [[1, 2, 3], [4, 5, 6 :: int]]" by code_simp
  show ?thesis using h1 h2 identity_times[OF h1 h2] by simp
qed

section \<open>vector.h: the accessor \<^verbatim>\<open>w()\<close>\<close>

text \<open>
  C8. For a \<^verbatim>\<open>Vector<T, n>\<close> with \<open>n > 2\<close>, \<^verbatim>\<open>w()\<close> returns the element at index 2, the element
  \<^verbatim>\<open>z()\<close> returns; where the vector has an element at index 3 that differs from it, \<^verbatim>\<open>w()\<close> does
  not return that one.
\<close>

theorem w_returns_index_2:
  "2 < n \<Longrightarrow>
   Vector_w n v = Some (v ! 2) \<and> Vector_w n v = Vector_z n v \<and>
   (3 < n \<longrightarrow> v ! 2 \<noteq> v ! 3 \<longrightarrow> Vector_w n v \<noteq> Vector_get n 3 v)"
  by (simp add: Vector_w_def Vector_z_def Vector_get_def)

theorem w_returns_index_2_witness:
  "(2 :: nat) < 4 \<and> Vector_w 4 [10, 20, 30, 40 :: int] = Some 30 \<and>
   Vector_w 4 [10, 20, 30, 40 :: int] = Vector_z 4 [10, 20, 30, 40] \<and>
   Vector_get 4 3 [10, 20, 30, 40 :: int] = Some 40 \<and>
   Vector_w 4 [10, 20, 30, 40 :: int] \<noteq> Vector_get 4 3 [10, 20, 30, 40]"
  using w_returns_index_2[of 4 "[10, 20, 30, 40 :: int]"]
  by (simp add: Vector_z_def Vector_get_def)

section \<open>\<^verbatim>\<open>Screen::moveWindowToFront\<close>: popups end behind their window\<close>

lemma findBaseIndex_absent:
  "window \<notin> set cs \<Longrightarrow> findBaseIndex window cs index baseIndex = baseIndex"
  by (induction cs arbitrary: index baseIndex) auto

lemma findBaseIndex_last:
  "window \<notin> set post \<Longrightarrow>
   findBaseIndex window (pre @ window # post) index baseIndex = index + length pre"
  by (induction pre arbitrary: index baseIndex) (auto simp: findBaseIndex_absent)

lemma findPopupBefore_None:
  "findPopupBefore P baseIndex cs index = None \<Longrightarrow> i < length cs \<Longrightarrow> P (cs ! i) \<Longrightarrow>
   baseIndex \<le> index + i"
proof (induction cs arbitrary: index i)
  case Nil
  then show ?case by simp
next
  case (Cons c cs)
  show ?case
  proof (cases i)
    case 0
    with Cons.prems show ?thesis by (auto split: if_splits)
  next
    case (Suc i')
    with Cons.prems have "findPopupBefore P baseIndex cs (Suc index) = None" "i' < length cs" "P (cs ! i')"
      by (auto split: if_splits)
    from Cons.IH[OF this] Suc show ?thesis by simp
  qed
qed

lemma findPopupBefore_Some:
  "findPopupBefore P baseIndex cs index = Some pw \<Longrightarrow>
   P pw \<and> (\<exists>i<length cs. cs ! i = pw \<and> index + i < baseIndex)"
proof (induction cs arbitrary: index)
  case Nil
  then show ?case by simp
next
  case (Cons c cs)
  show ?case
  proof (cases "P c \<and> index < baseIndex")
    case True
    with Cons.prems have "pw = c" by simp
    with True show ?thesis by auto
  next
    case False
    with Cons.prems have "findPopupBefore P baseIndex cs (Suc index) = Some pw" by auto
    from Cons.IH[OF this] obtain i where "P pw" "i < length cs" "cs ! i = pw" "Suc index + i < baseIndex"
      by auto
    then have "Suc i < length (c # cs) \<and> (c # cs) ! Suc i = pw \<and> index + Suc i < baseIndex" by simp
    with \<open>P pw\<close> show ?thesis by blast
  qed
qed

lemmas restabilize_induct = restabilize.raw_induct [rotated 1, consumes 1, case_names step]

lemma restabilize_exit:
  "restabilize popupOf window children = Some res \<Longrightarrow>
   findPopupBefore (\<lambda>c. popupOf c window) (findBaseIndex window res 0 0) res 0 = None"
proof (induction rule: restabilize_induct)
  case (step restabilize' popupOf window children res)
  then show ?case
    by (auto simp: Let_def split: option.splits bind_splits)
qed

lemma once_moved: "once x (removeAll x xs @ [x])"
  unfolding once_def by (rule exI[of _ "removeAll x xs"], rule exI[of _ "[]"]) simp

lemma once_other:
  assumes "once x xs" shows "once x (removeAll y xs @ [y])"
proof (cases "y = x")
  case True
  then show ?thesis by (simp add: once_moved)
next
  case False
  from assms obtain pre post where xs: "xs = pre @ x # post" "x \<notin> set pre" "x \<notin> set post"
    unfolding once_def by blast
  show ?thesis unfolding once_def
    by (rule exI[of _ "removeAll y pre"], rule exI[of _ "removeAll y post @ [y]"])
       (use xs False in auto)
qed

lemma restabilize_once:
  "restabilize popupOf window children = Some res \<Longrightarrow> once x children \<Longrightarrow> once x res"
proof (induction rule: restabilize_induct)
  case (step restabilize' popupOf window children res)
  show ?case
  proof (cases "findPopupBefore (\<lambda>c. popupOf c window) (findBaseIndex window children 0 0) children 0")
    case None
    with step show ?thesis by (simp add: Let_def)
  next
    case (Some pw)
    with step(2) obtain mid where m: "restabilize' popupOf pw (removeAll pw children @ [pw]) = Some mid"
      "restabilize' popupOf window mid = Some res"
      by (auto simp: Let_def split: bind_splits)
    from step(1)[OF m(1) once_other[OF step(3)]] have "once x mid" .
    from step(1)[OF m(2) this] show ?thesis .
  qed
qed

lemma moveToFront_popups_after:
  assumes "moveToFront popupOf window children = Some res"
  shows "\<exists>j<length res. res ! j = window \<and> (\<forall>k<length res. res ! k = window \<longrightarrow> k = j) \<and>
           (\<forall>i<length res. popupOf (res ! i) window \<and> res ! i \<noteq> window \<longrightarrow> j < i)"
proof -
  from assms have r: "restabilize popupOf window (removeAll window children @ [window]) = Some res"
    by (simp add: moveToFront_def)
  from restabilize_once[OF r once_moved] obtain pre post
    where res: "res = pre @ window # post" "window \<notin> set pre" "window \<notin> set post"
    unfolding once_def by blast
  have base: "findBaseIndex window res 0 0 = length pre"
    using findBaseIndex_last[OF res(3), of pre 0 0] res(1) by simp
  have uniq: "k = length pre" if "k < length res" "res ! k = window" for k
  proof (rule ccontr)
    assume "k \<noteq> length pre"
    then consider "k < length pre" | "length pre < k" by linarith
    then show False
    proof cases
      case 1
      then have "res ! k \<in> set pre" by (simp add: res(1) nth_append)
      with that res(2) show False by simp
    next
      case 2
      then have "res ! k = post ! (k - Suc (length pre))" by (simp add: res(1) nth_append)
      moreover have "k - Suc (length pre) < length post" using that(1) 2 by (simp add: res(1))
      ultimately have "res ! k \<in> set post" by simp
      with that res(3) show False by simp
    qed
  qed
  have after: "length pre < i" if "i < length res" "popupOf (res ! i) window" "res ! i \<noteq> window" for i
  proof -
    from findPopupBefore_None[OF restabilize_exit[OF r] that(1)] that(2) base
    have "length pre \<le> i" by simp
    moreover have "i \<noteq> length pre" using that(3) by (auto simp: res(1))
    ultimately show ?thesis by simp
  qed
  have "length pre < length res" "res ! length pre = window" by (simp_all add: res(1))
  with uniq after show ?thesis by blast
qed

lemma filter_moved:
  "filter Q (removeAll x xs @ [x]) = filter (\<lambda>c. Q c \<and> c \<noteq> x) xs @ (if Q x then [x] else [])"
  by (induction xs) auto

lemma restabilize_shape:
  "restabilize popupOf window children = Some res \<Longrightarrow> set children \<subseteq> S \<Longrightarrow>
   \<exists>M t. res = filter (\<lambda>c. c \<notin> M) children @ t \<and> set t = M \<and> M \<subseteq> set children \<and>
         (\<forall>m\<in>M. (m, window) \<in> (anchoring popupOf S)\<^sup>+)"
proof (induction rule: restabilize_induct)
  case (step restabilize' popupOf window children res)
  let ?R = "anchoring popupOf S"
  show ?case
  proof (cases "findPopupBefore (\<lambda>c. popupOf c window) (findBaseIndex window children 0 0) children 0")
    case None
    with step(2) have "res = children" by (simp add: Let_def)
    then show ?thesis
      by (intro exI[of _ "{}"] exI[of _ "[]"]) simp
  next
    case (Some pw)
    let ?ch1 = "removeAll pw children @ [pw]"
    from Some step(2) obtain mid where m: "restabilize' popupOf pw ?ch1 = Some mid"
      "restabilize' popupOf window mid = Some res"
      by (auto simp: Let_def split: bind_splits)
    from findPopupBefore_Some[OF Some] have pw: "popupOf pw window" "pw \<in> set children"
      by auto
    then have edge: "(pw, window) \<in> ?R" using step(3) by (auto simp: anchoring_def)
    have set1: "set ?ch1 = set children" using pw(2) by auto
    then have sub1: "set ?ch1 \<subseteq> S" using step(3) by simp
    from step(1)[OF m(1) sub1] obtain M1 t1 where
      1: "mid = filter (\<lambda>c. c \<notin> M1) ?ch1 @ t1" "set t1 = M1" "M1 \<subseteq> set ?ch1"
         "\<forall>m\<in>M1. (m, pw) \<in> ?R\<^sup>+"
      by blast
    have M1sub: "M1 \<subseteq> set children" using 1(3) unfolding set1 .
    have "set mid = (set ?ch1 - M1) \<union> M1" unfolding 1(1) using 1(2) by auto
    then have setmid: "set mid = set children" using 1(3) unfolding set1 by blast
    then have sub2: "set mid \<subseteq> S" using step(3) by simp
    from step(1)[OF m(2) sub2] obtain M2 t2 where
      2: "res = filter (\<lambda>c. c \<notin> M2) mid @ t2" "set t2 = M2" "M2 \<subseteq> set mid"
         "\<forall>m\<in>M2. (m, window) \<in> ?R\<^sup>+"
      by blast
    have M2sub: "M2 \<subseteq> set children" using 2(3) unfolding setmid .
    define M where "M = insert pw (M1 \<union> M2)"
    define t where "t = filter (\<lambda>c. c \<notin> M2) ((if pw \<notin> M1 then [pw] else []) @ t1) @ t2"
    have "res = filter (\<lambda>c. c \<notin> M) children @ t"
      unfolding 2(1) 1(1) filter_moved M_def t_def
      by (auto intro: filter_cong)
    moreover have "set t = M" unfolding t_def M_def using 1(2) 2(2) by auto
    moreover have "M \<subseteq> set children" unfolding M_def using pw(2) M1sub M2sub by auto
    moreover have "\<forall>m\<in>M. (m, window) \<in> ?R\<^sup>+"
      unfolding M_def using edge 1(4) 2(4) by (auto intro: trancl_into_trancl)
    ultimately show ?thesis by blast
  qed
qed

lemma restabilize_returns:
  assumes wf: "wf (anchoring popupOf S)"
  shows "set children \<subseteq> S \<Longrightarrow> \<exists>res. restabilize popupOf window children = Some res"
proof (induction window arbitrary: children rule: wf_induct_rule[OF wf])
  case (1 window)
  let ?R = "anchoring popupOf S"
  let ?P = "\<lambda>c. popupOf c window"
  define viol where
    "viol ch = length (filter ?P (take (findBaseIndex window ch 0 0) ch))" for ch
  have "set ch \<subseteq> S \<Longrightarrow> \<exists>res. restabilize popupOf window ch = Some res" for ch
  proof (induction "viol ch" arbitrary: ch rule: less_induct)
    case less
    show ?case
    proof (cases "findPopupBefore ?P (findBaseIndex window ch 0 0) ch 0")
      case None
      then show ?thesis by (subst restabilize.simps) (simp add: Let_def)
    next
      case (Some pw)
      let ?ch1 = "removeAll pw ch @ [pw]"
      from findPopupBefore_Some[OF Some] obtain i where
        pw: "popupOf pw window" "i < length ch" "ch ! i = pw" "i < findBaseIndex window ch 0 0"
        by auto
      then have pwin: "pw \<in> set ch" by auto
      then have edge: "(pw, window) \<in> ?R" using pw(1) less.prems by (auto simp: anchoring_def)
      have set1: "set ?ch1 = set ch" using pwin by auto
      then have sub1: "set ?ch1 \<subseteq> S" using less.prems by simp
      from "1.IH"[OF edge sub1] obtain mid where
        mid: "restabilize popupOf pw ?ch1 = Some mid" by blast
      from restabilize_shape[OF mid sub1] obtain M1 t1 where
        sh: "mid = filter (\<lambda>c. c \<notin> M1) ?ch1 @ t1" "set t1 = M1" "M1 \<subseteq> set ?ch1"
            "\<forall>m\<in>M1. (m, pw) \<in> ?R\<^sup>+"
        by blast
      have M1sub: "M1 \<subseteq> set ch" using sh(3) unfolding set1 .
      have wfT: "wf (?R\<^sup>+)" using wf by (rule wf_trancl)
      have "(window, window) \<notin> ?R\<^sup>+" using wfT by (rule wf_not_refl)
      then have wnot: "window \<noteq> pw" "window \<notin> M1"
        using edge sh(4) by (auto intro: trancl_into_trancl)
      define M where "M = insert pw M1"
      define u where "u = (if pw \<notin> M1 then [pw] else []) @ t1"
      have mid_eq: "mid = filter (\<lambda>c. c \<notin> M) ch @ u"
        unfolding sh(1) filter_moved M_def u_def by (auto intro: filter_cong)
      have setu: "set u = M" unfolding u_def M_def using sh(2) by auto
      have wM: "window \<notin> M" using wnot by (simp add: M_def)
      have "window \<in> set ch"
      proof (rule ccontr)
        assume "window \<notin> set ch"
        then have "findBaseIndex window ch 0 0 = 0" by (rule findBaseIndex_absent)
        with pw(4) show False by simp
      qed
      then obtain pre post where ch: "ch = pre @ window # post" "window \<notin> set post"
        using split_list_last by fastforce
      have base: "findBaseIndex window ch 0 0 = length pre"
        using findBaseIndex_last[OF ch(2), of pre 0 0] ch(1) by simp
      have pwpre: "pw \<in> set pre" using pw(3,4) base by (auto simp: ch(1) nth_append)
      have mid2: "mid = filter (\<lambda>c. c \<notin> M) pre @ window # (filter (\<lambda>c. c \<notin> M) post @ u)"
        using mid_eq wM by (simp add: ch(1))
      have "window \<notin> set (filter (\<lambda>c. c \<notin> M) post @ u)" using ch(2) setu wM by auto
      from findBaseIndex_last[OF this, of "filter (\<lambda>c. c \<notin> M) pre" 0 0]
      have base2: "findBaseIndex window mid 0 0 = length (filter (\<lambda>c. c \<notin> M) pre)"
        by (simp add: mid2)
      have "viol mid = length (filter (\<lambda>c. c \<notin> M) (filter ?P pre))"
        unfolding viol_def base2 by (simp add: mid2 conj_commute)
      also have "\<dots> < length (filter ?P pre)"
        by (rule length_filter_less[of pw]) (use pwpre pw(1) in \<open>auto simp: M_def\<close>)
      also have "\<dots> = viol ch" unfolding viol_def base by (simp add: ch(1))
      finally have dec: "viol mid < viol ch" .
      have "set mid \<subseteq> S" using setu less.prems M1sub pwin unfolding mid_eq by (auto simp: M_def)
      from less.hyps[OF dec this] obtain res where "restabilize popupOf window mid = Some res" ..
      then show ?thesis using Some mid by (subst restabilize.simps) (simp add: Let_def)
    qed
  qed
  from this[OF "1.prems"] show ?case .
qed

lemma moveToFront_returns:
  assumes "wf (anchoring popupOf (insert window (set children)))"
  shows "\<exists>res. moveToFront popupOf window children = Some res"
  unfolding moveToFront_def
  by (rule restabilize_returns[OF assms]) auto

lemma finite_anchoring: "finite S \<Longrightarrow> finite (anchoring (isPopupOf h) S)"
proof -
  assume "finite S"
  then have "finite ((\<lambda>pw. (pw, the (wParentWindow h pw))) ` S)" by simp
  moreover have "anchoring (isPopupOf h) S \<subseteq> (\<lambda>pw. (pw, the (wParentWindow h pw))) ` S"
    by (auto simp: anchoring_def isPopupOf_def image_iff)
  ultimately show ?thesis by (rule rev_finite_subset)
qed

text \<open>
  C1. After \<^verbatim>\<open>moveWindowToFront(W)\<close> has returned, \<open>W\<close> stands exactly once among the children
  of the Screen, and every child other than \<open>W\<close> that is a popup whose parent window is \<open>W\<close>
  stands at a strictly later index than \<open>W\<close>: the loop ends with no popup of \<open>W\<close> before \<open>W\<close>.
  The call does return whenever the anchoring of the popups among the children (and \<open>W\<close>) is
  acyclic, that is, no popup is anchored to itself through a chain of parent windows.
\<close>

theorem moveWindowToFront_popups_after:
  "(moveWindowToFront window h = Some h' \<longrightarrow>
      (\<exists>j<length (mChildren h'). mChildren h' ! j = window \<and>
         (\<forall>k<length (mChildren h'). mChildren h' ! k = window \<longrightarrow> k = j) \<and>
         (\<forall>i<length (mChildren h').
            isPopupOf h' (mChildren h' ! i) window \<and> mChildren h' ! i \<noteq> window \<longrightarrow> j < i))) \<and>
   (acyclic (anchoring (isPopupOf h) (insert window (set (mChildren h)))) \<longrightarrow>
      (\<exists>h'. moveWindowToFront window h = Some h'))"
proof (intro conjI impI)
  assume "moveWindowToFront window h = Some h'"
  then obtain res where res: "moveToFront (isPopupOf h) window (mChildren h) = Some res"
    and h': "h' = h\<lparr>mChildren := res\<rparr>"
    by (auto simp: moveWindowToFront_def)
  have same: "isPopupOf h' = isPopupOf h" by (auto simp: h' isPopupOf_def fun_eq_iff)
  from moveToFront_popups_after[OF res]
  show "\<exists>j<length (mChildren h'). mChildren h' ! j = window \<and>
         (\<forall>k<length (mChildren h'). mChildren h' ! k = window \<longrightarrow> k = j) \<and>
         (\<forall>i<length (mChildren h').
            isPopupOf h' (mChildren h' ! i) window \<and> mChildren h' ! i \<noteq> window \<longrightarrow> j < i)"
    unfolding same by (simp add: h')
next
  let ?S = "insert window (set (mChildren h))"
  assume "acyclic (anchoring (isPopupOf h) ?S)"
  moreover have "finite (anchoring (isPopupOf h) ?S)" by (rule finite_anchoring) simp
  ultimately have "wf (anchoring (isPopupOf h) ?S)" by (rule finite_acyclic_wf[rotated])
  from moveToFront_returns[OF this]
  show "\<exists>h'. moveWindowToFront window h = Some h'" by (auto simp: moveWindowToFront_def)
qed

text \<open>On the scene \<open>stacked\<close> the call returns the order 4, 1, 2, 3.\<close>

lemma stacked_eval: "map_option mChildren (moveWindowToFront 1 stacked) = Some [4, 1, 2, 3]"
  by code_simp

lemma stacked_acyclic: "acyclic (anchoring (isPopupOf stacked) (insert 1 (set (mChildren stacked))))"
proof (rule wf_acyclic, rule wf_subset[OF wf_measure[of "\<lambda>w. 10 - w"]])
  show "anchoring (isPopupOf stacked) (insert 1 (set (mChildren stacked))) \<subseteq> measure (\<lambda>w. 10 - w)"
    by (auto simp: anchoring_def isPopupOf_def stacked_def blank_def split: if_splits)
qed

theorem moveWindowToFront_popups_after_witness:
  "\<exists>h'. moveWindowToFront 1 stacked = Some h' \<and> mChildren h' = [4, 1, 2, 3] \<and>
     (\<exists>j<length (mChildren h'). mChildren h' ! j = 1 \<and>
         (\<forall>k<length (mChildren h'). mChildren h' ! k = 1 \<longrightarrow> k = j) \<and>
         (\<forall>i<length (mChildren h').
            isPopupOf h' (mChildren h' ! i) 1 \<and> mChildren h' ! i \<noteq> 1 \<longrightarrow> j < i))"
proof -
  from moveWindowToFront_popups_after[of 1 stacked] stacked_acyclic
  obtain h' where h': "moveWindowToFront 1 stacked = Some h'" by blast
  with stacked_eval have "mChildren h' = [4, 1, 2, 3]" by simp
  with h' moveWindowToFront_popups_after[of 1 stacked h'] show ?thesis by blast
qed

section \<open>The handlers of the Screen\<close>

subsection \<open>Runs, sequencing and the catch clause\<close>

lemma run_projections [simp]:
  "calls_of (cs, out, h) = cs" "outcome_of (cs, out, h) = out" "heap_of (cs, out, h) = h"
  by (simp_all add: calls_of_def outcome_of_def heap_of_def)

lemma andThen_simps [simp]:
  "andThen (cs, Returns a, h) f = (cs @ calls_of (f a h), outcome_of (f a h), heap_of (f a h))"
  "andThen (cs, Throws e, h) f = (cs, Throws e, h)"
  "andThen (cs, Undefined, h) f = (cs, Undefined, h)"
  "andThen (cs, Diverges, h) f = (cs, Diverges, h)"
  by (simp_all add: andThen_def calls_of_def outcome_of_def heap_of_def split: prod.splits)

lemma tryCatch_simps [simp]:
  "tryCatch (cs, Returns b, h) = (cs, Returns b, h)"
  "tryCatch (cs, Throws (StdException what), h) =
     (cs @ [Cerr (''Caught exception in event handler: '' @ what)], Returns False, h)"
  "tryCatch (cs, Throws ForeignException, h) = (cs, Throws ForeignException, h)"
  "tryCatch (cs, Undefined, h) = (cs, Undefined, h)"
  "tryCatch (cs, Diverges, h) = (cs, Diverges, h)"
  by (simp_all add: tryCatch_def)

lemma run_eta: "(calls_of r, outcome_of r, heap_of r) = r"
  by (cases r) simp

lemma upt_2: "[0..<2] = [0, 1]"
  by (simp add: numeral_2_eq_2)

lemma Vector2_minus [simp]: "Vector_minus 2 [a, b] [c, d] = [a - c, b - d]"
  by (simp add: Vector_minus_def Vector_combine_def upt_2)

lemma Vector2_eq_zero: "Vector_eq 2 v [0, 0] \<longleftrightarrow> v ! 0 = 0 \<and> v ! 1 = 0"
  by (simp add: Vector_eq_def upt_2)

lemma andThen_calls: "prefix (calls_of r) (calls_of (andThen r f))"
proof (cases r)
  case (fields cs out h)
  then show ?thesis by (cases out) auto
qed

lemma tryCatch_calls: "prefix (calls_of r) (calls_of (tryCatch r))"
proof (cases r)
  case (fields cs out h)
  then show ?thesis by (cases out) (auto simp: tryCatch_def split: exn.splits)
qed

lemma tryCatch_Returns: "outcome_of r = Returns b \<Longrightarrow> tryCatch r = r"
  by (cases r) simp

lemma tryCatch_Throws:
  "outcome_of r = Throws (StdException what) \<Longrightarrow>
   outcome_of (tryCatch r) = Returns False \<and> heap_of (tryCatch r) = heap_of r"
  by (cases r) simp

lemma prefix_take: "prefix xs ys \<Longrightarrow> take (length xs) ys = xs"
  by (auto simp: prefix_def)

lemma invoke_calls [simp]: "calls_of (invoke c r) = [c]"
  by (simp add: invoke_def calls_of_def)

lemma andThen_store:
  assumes "outcome_of (andThen r (\<lambda>a h1. andThen (g a h1) (\<lambda>ret h2. ([], Returns ret, st h2)))) =
             Returns b"
  shows "\<exists>h2. heap_of (andThen r (\<lambda>a h1. andThen (g a h1) (\<lambda>ret h2. ([], Returns ret, st h2)))) =
             st h2"
proof (cases r)
  case r: (fields cs out h)
  show ?thesis
  proof (cases out)
    case (Returns a)
    obtain cs' out' h' where g: "g a h = (cs', out', h')" by (cases "g a h")
    with assms r Returns show ?thesis by (cases out') auto
  qed (use assms r in auto)
qed

lemma cursorPosTry_stores:
  assumes "outcome_of (cursorPosTry cb p0 h) = Returns ret"
  shows "mMousePos (heap_of (cursorPosTry cb p0 h)) = Vector_minus 2 p0 [1, 2]"
proof -
  from assms have "\<exists>h2. heap_of (cursorPosTry cb p0 h) = h2\<lparr>mMousePos := Vector_minus 2 p0 [1, 2]\<rparr>"
    unfolding cursorPosTry_def Let_def by (rule andThen_store)
  then show ?thesis by auto
qed

subsection \<open>Modal capture\<close>

text \<open>
  C2. While the widget just below the root on the focus path is a modal window and the stored
  mouse position lies outside it, \<^verbatim>\<open>mouseButtonCallbackEvent\<close> (for a press and for a release)
  and \<^verbatim>\<open>scrollCallbackEvent\<close> invoke no widget method and return false; they only store the
  modifiers and the time.
\<close>

theorem modal_capture:
  assumes "1 < length (mFocusPath h)"
    and "window = mFocusPath h ! (length (mFocusPath h) - 2)"
    and "isWindow h window" and "wModal h window"
    and "\<not> wContains h window (mMousePos h)"
  shows "mouseButtonCallbackEvent cb button action modifiers now h =
           ([], Returns False, h\<lparr>mModifiers := modifiers, mLastInteraction := now\<rparr>) \<and>
         scrollCallbackEvent cb x y now h = ([], Returns False, h\<lparr>mLastInteraction := now\<rparr>)"
proof -
  have "modalBlocks (h\<lparr>mModifiers := modifiers, mLastInteraction := now\<rparr>)"
    using assms by (simp add: modalBlocks_def isWindow_def)
  moreover have "modalBlocks (h\<lparr>mLastInteraction := now\<rparr>)"
    using assms by (simp add: modalBlocks_def isWindow_def)
  ultimately show ?thesis
    by (simp add: mouseButtonCallbackEvent_def mouseButtonTry_def scrollCallbackEvent_def
        scrollTry_def)
qed

theorem modal_capture_witness:
  "1 < length (mFocusPath modalScene) \<and>
   isWindow modalScene 2 \<and> wModal modalScene 2 \<and> \<not> wContains modalScene 2 (mMousePos modalScene) \<and>
   mouseButtonCallbackEvent consumeAll 1 1 0 7 modalScene =
     ([], Returns False, modalScene\<lparr>mModifiers := 0, mLastInteraction := 7\<rparr>) \<and>
   scrollCallbackEvent consumeAll 0 1 7 modalScene =
     ([], Returns False, modalScene\<lparr>mLastInteraction := 7\<rparr>)"
proof -
  have 1: "1 < length (mFocusPath modalScene)" by (simp add: modalScene_def)
  have 2: "2 = mFocusPath modalScene ! (length (mFocusPath modalScene) - 2)"
    by (simp add: modalScene_def)
  have 3: "isWindow modalScene 2" by (simp add: modalScene_def isWindow_def)
  have 4: "wModal modalScene 2" by (simp add: modalScene_def)
  have 5: "\<not> wContains modalScene 2 (mMousePos modalScene)" by (simp add: modalScene_def blank_def)
  from modal_capture[OF 1 2 3 4 5, of consumeAll 1 1 0 7 0 1] 1 3 4 5 show ?thesis by simp
qed

subsection \<open>Resize events\<close>

text \<open>
  C6. When the native size or the scaled size read by \<^verbatim>\<open>resizeCallbackEvent\<close> is the zero
  vector, nothing is stored, no hook runs and the call returns false. Otherwise \<^verbatim>\<open>mFBSize\<close> and
  \<^verbatim>\<open>mSize\<close> are stored: with no hook installed the call returns false on the updated heap, and
  an installed hook is the first thing called, with the new size and on the updated heap; when
  it returns, the handler returns true.
\<close>

theorem resize_zero_ignored:
  "(Vector_eq 2 nativeSize [0, 0] \<or> Vector_eq 2 (scaledSize pf h nativeSize) [0, 0] \<longrightarrow>
      resizeCallbackEvent cb pf nativeSize now h = ([], Returns False, h)) \<and>
   (\<not> Vector_eq 2 nativeSize [0, 0] \<and> \<not> Vector_eq 2 (scaledSize pf h nativeSize) [0, 0] \<longrightarrow>
      (mResizeCallback cb = None \<longrightarrow>
         resizeCallbackEvent cb pf nativeSize now h =
           ([], Returns False,
            h\<lparr>mFBSize := nativeSize, mSize := scaledSize pf h nativeSize, mLastInteraction := now\<rparr>)) \<and>
      (mResizeCallback cb = Some hook \<longrightarrow>
         take 1 (calls_of (resizeCallbackEvent cb pf nativeSize now h)) =
           [ResizeCallback (scaledSize pf h nativeSize)] \<and>
         (hook (scaledSize pf h nativeSize)
            (h\<lparr>mFBSize := nativeSize, mSize := scaledSize pf h nativeSize, mLastInteraction := now\<rparr>) =
              (Returns (), h') \<longrightarrow>
          resizeCallbackEvent cb pf nativeSize now h =
            ([ResizeCallback (scaledSize pf h nativeSize)], Returns True, h'))))"
proof (intro conjI impI)
  assume "Vector_eq 2 nativeSize [0, 0] \<or> Vector_eq 2 (scaledSize pf h nativeSize) [0, 0]"
  then show "resizeCallbackEvent cb pf nativeSize now h = ([], Returns False, h)"
    by (auto simp: resizeCallbackEvent_def Let_def)
next
  assume "\<not> Vector_eq 2 nativeSize [0, 0] \<and> \<not> Vector_eq 2 (scaledSize pf h nativeSize) [0, 0]"
    and "mResizeCallback cb = None"
  then show "resizeCallbackEvent cb pf nativeSize now h =
           ([], Returns False,
            h\<lparr>mFBSize := nativeSize, mSize := scaledSize pf h nativeSize, mLastInteraction := now\<rparr>)"
    by (simp add: resizeCallbackEvent_def Let_def resizeEvent_def)
next
  let ?h1 = "h\<lparr>mFBSize := nativeSize, mSize := scaledSize pf h nativeSize, mLastInteraction := now\<rparr>"
  let ?sz = "scaledSize pf h nativeSize"
  assume nz: "\<not> Vector_eq 2 nativeSize [0, 0] \<and> \<not> Vector_eq 2 (scaledSize pf h nativeSize) [0, 0]"
    and hook: "mResizeCallback cb = Some hook"
  then have eq: "resizeCallbackEvent cb pf nativeSize now h =
      tryCatch (andThen (invoke (ResizeCallback ?sz) (hook ?sz ?h1)) (\<lambda>_ h'. ([], Returns True, h')))"
    by (simp add: resizeCallbackEvent_def Let_def resizeEvent_def)
  have "prefix [ResizeCallback ?sz] (calls_of (resizeCallbackEvent cb pf nativeSize now h))"
    unfolding eq
    by (rule prefix_order.trans[OF _ tryCatch_calls], rule prefix_order.trans[OF _ andThen_calls]) simp
  from prefix_take[OF this]
  show "take 1 (calls_of (resizeCallbackEvent cb pf nativeSize now h)) = [ResizeCallback ?sz]"
    by simp
  assume "hook ?sz ?h1 = (Returns (), h')"
  then show "resizeCallbackEvent cb pf nativeSize now h = ([ResizeCallback ?sz], Returns True, h')"
    unfolding eq by (simp add: invoke_def)
qed

theorem resize_zero_ignored_witness:
  "resizeCallbackEvent resizeHook unscaled [0, 0] 7 blank = ([], Returns False, blank) \<and>
   resizeCallbackEvent quiet unscaled [640, 480] 7 blank =
     ([], Returns False, blank\<lparr>mFBSize := [640, 480], mSize := [640, 480], mLastInteraction := 7\<rparr>) \<and>
   resizeCallbackEvent resizeHook unscaled [640, 480] 7 blank =
     ([ResizeCallback [640, 480]], Returns True,
      blank\<lparr>mFBSize := [640, 480], mSize := [640, 480], mLastInteraction := 7\<rparr>)"
proof -
  have z: "Vector_eq 2 [0, 0 :: int] [0, 0]" by (simp add: Vector2_eq_zero)
  have nz: "\<not> Vector_eq 2 [640, 480 :: int] [0, 0]" by (simp add: Vector2_eq_zero)
  have s: "scaledSize unscaled blank v = v" for v by (simp add: scaledSize_def unscaled_def)
  have q: "mResizeCallback quiet = None" by (simp add: quiet_def)
  have r: "mResizeCallback resizeHook = Some (\<lambda>sz h. (Returns (), h))"
    by (simp add: resizeHook_def quiet_def)
  from resize_zero_ignored[of "[0, 0]" unscaled blank resizeHook 7]
    resize_zero_ignored[of "[640, 480]" unscaled blank quiet 7]
    resize_zero_ignored[of "[640, 480]" unscaled blank resizeHook 7 "\<lambda>sz h. (Returns (), h)"
      "blank\<lparr>mFBSize := [640, 480], mSize := [640, 480], mLastInteraction := 7\<rparr>"]
    z nz q r
  show ?thesis by (simp add: s)
qed

subsection \<open>Cursor motion\<close>

text \<open>
  C10. With \<open>p\<close> the point \<^verbatim>\<open>cursorPosCallbackEvent\<close> constructs (on a scaled platform the
  coordinates divided by the pixel ratio) shifted by \<open>(-1, -2)\<close>: outside a drag the hit test and
  the motion event are given \<open>p\<close>; in a drag the drag event is given \<open>p\<close> relative to the parent
  of the drag widget; and when the \<^verbatim>\<open>try\<close> block completes the stored mouse position is \<open>p\<close>.
\<close>

theorem cursorPos_uses_shifted_point:
  "(let p = Vector_minus 2 (logicalPos pf h x y) [1, 2];
        r = cursorPosCallbackEvent cb pf x y now h
    in
      (pixelScaled pf \<longrightarrow>
         p = [intOfQuotient pf x (mPixelRatio h) - 1, intOfQuotient pf y (mPixelRatio h) - 2]) \<and>
      (\<not> pixelScaled pf \<longrightarrow> p = [intOfDouble pf x - 1, intOfDouble pf y - 2]) \<and>
      (\<not> mDragActive h \<longrightarrow>
         take 2 (calls_of r) =
           [FindWidget p,
            MouseMotionEvent (thisScreen h) p (Vector_minus 2 p (mMousePos h))
              (mMouseState h) (mModifiers h)]) \<and>
      (mDragActive h \<longrightarrow> dragOrigin h = Some (d, origin) \<longrightarrow>
         take 1 (calls_of r) =
           [MouseDragEvent d (Vector_minus 2 p origin) (Vector_minus 2 p (mMousePos h))
              (mMouseState h) (mModifiers h)]) \<and>
      (outcome_of (cursorPosTry cb (logicalPos pf h x y) (h\<lparr>mLastInteraction := now\<rparr>)) =
          Returns ret \<longrightarrow>
         mMousePos (heap_of r) = p))"
proof -
  let ?p = "Vector_minus 2 (logicalPos pf h x y) [1, 2]"
  let ?h1 = "h\<lparr>mLastInteraction := now\<rparr>"
  let ?body = "cursorPosTry cb (logicalPos pf h x y) ?h1"
  let ?r = "cursorPosCallbackEvent cb pf x y now h"
  have r: "?r = tryCatch ?body" by (simp add: cursorPosCallbackEvent_def)
  have a: "?p = [intOfQuotient pf x (mPixelRatio h) - 1, intOfQuotient pf y (mPixelRatio h) - 2]"
    if "pixelScaled pf" using that by (simp add: logicalPos_def)
  have b: "?p = [intOfDouble pf x - 1, intOfDouble pf y - 2]"
    if "\<not> pixelScaled pf" using that by (simp add: logicalPos_def)
  have c: "take 2 (calls_of ?r) =
           [FindWidget ?p,
            MouseMotionEvent (thisScreen h) ?p (Vector_minus 2 ?p (mMousePos h))
              (mMouseState h) (mModifiers h)]" if "\<not> mDragActive h"
  proof -
    let ?h2 = "updateCursor (Widget_findWidget cb ?h1 ?p) ?h1"
    let ?motion = "call_mouseMotionEvent cb (thisScreen h) ?p (Vector_minus 2 ?p (mMousePos h))
                     (mMouseState h) (mModifiers h) ?h2"
    have same: "thisScreen ?h2 = thisScreen h" "mMousePos ?h2 = mMousePos h"
      "mMouseState ?h2 = mMouseState h" "mModifiers ?h2 = mModifiers h"
      by (simp_all add: updateCursor_def split: option.splits)
    have "calls_of ?body =
            [FindWidget ?p] @ calls_of (andThen ?motion (\<lambda>ret h2. ([], Returns ret, h2\<lparr>mMousePos := ?p\<rparr>)))"
      using that by (simp add: cursorPosTry_def Let_def same)
    moreover have "prefix (calls_of ?motion)
        (calls_of (andThen ?motion (\<lambda>ret h2. ([], Returns ret, h2\<lparr>mMousePos := ?p\<rparr>))))"
      by (rule andThen_calls)
    ultimately have "prefix ([FindWidget ?p] @ calls_of ?motion) (calls_of ?body)" by simp
    then have "prefix ([FindWidget ?p] @ calls_of ?motion) (calls_of ?r)"
      unfolding r by (rule prefix_order.trans[OF _ tryCatch_calls])
    from prefix_take[OF this] show ?thesis by (simp add: call_mouseMotionEvent_def numeral_2_eq_2)
  qed
  have d: "take 1 (calls_of ?r) =
           [MouseDragEvent d (Vector_minus 2 ?p origin) (Vector_minus 2 ?p (mMousePos h))
              (mMouseState h) (mModifiers h)]"
    if "mDragActive h" "dragOrigin h = Some (d, origin)"
  proof -
    let ?drag = "call_mouseDragEvent cb d (Vector_minus 2 ?p origin) (Vector_minus 2 ?p (mMousePos h))
                   (mMouseState h) (mModifiers h) ?h1"
    have "dragOrigin ?h1 = dragOrigin h" by (simp add: dragOrigin_def split: option.splits)
    then have "dragOrigin ?h1 = Some (d, origin)" using that(2) by simp
    then have "prefix (calls_of ?drag) (calls_of ?body)"
      using that(1) by (simp add: cursorPosTry_def Let_def andThen_calls)
    then have "prefix (calls_of ?drag) (calls_of ?r)"
      unfolding r by (rule prefix_order.trans[OF _ tryCatch_calls])
    from prefix_take[OF this] show ?thesis by (simp add: call_mouseDragEvent_def)
  qed
  have e: "mMousePos (heap_of ?r) = ?p" if "outcome_of ?body = Returns ret"
    using that by (simp add: r tryCatch_Returns cursorPosTry_stores)
  from a b c d e show ?thesis by (simp add: Let_def)
qed

theorem cursorPos_uses_shifted_point_witness:
  "take 2 (calls_of (cursorPosCallbackEvent quiet scaled 300 200 7 (dragScene\<lparr>mDragActive := False\<rparr>))) =
     [FindWidget [149, 98], MouseMotionEvent 0 [149, 98] [39, 38] 0 0] \<and>
   take 1 (calls_of (cursorPosCallbackEvent quiet scaled 300 200 7 dragScene)) =
     [MouseDragEvent 1 [49, 48] [39, 38] 0 0] \<and>
   mMousePos (heap_of (cursorPosCallbackEvent quiet scaled 300 200 7 dragScene)) = [149, 98] \<and>
   take 2 (calls_of (cursorPosCallbackEvent quiet unscaled 300 200 7 (dragScene\<lparr>mDragActive := False\<rparr>))) =
     [FindWidget [299, 198], MouseMotionEvent 0 [299, 198] [189, 138] 0 0]"
proof -
  have p: "Vector_minus 2 (logicalPos scaled dragScene 300 200) [1, 2] = [149, 98]"
    "Vector_minus 2 (logicalPos scaled (dragScene\<lparr>mDragActive := False\<rparr>) 300 200) [1, 2] = [149, 98]"
    "Vector_minus 2 (logicalPos unscaled (dragScene\<lparr>mDragActive := False\<rparr>) 300 200) [1, 2] = [299, 198]"
    by (simp_all add: logicalPos_def scaled_def unscaled_def toward_zero_def dragScene_def)
  have o: "dragOrigin dragScene = Some (1, [100, 50])"
    by (simp add: dragOrigin_def dragScene_def)
  have t: "outcome_of (cursorPosTry quiet (logicalPos scaled dragScene 300 200)
             (dragScene\<lparr>mLastInteraction := 7\<rparr>)) = Returns False"
    by code_simp
  have f: "mDragActive dragScene" "mMousePos dragScene = [110, 60]" "thisScreen dragScene = 0"
    "mMouseState dragScene = 0" "mModifiers dragScene = 0" "pixelScaled scaled" "\<not> pixelScaled unscaled"
    by (simp_all add: dragScene_def blank_def scaled_def unscaled_def)
  from cursorPos_uses_shifted_point[of scaled "dragScene\<lparr>mDragActive := False\<rparr>" 300 200 quiet 7]
    cursorPos_uses_shifted_point[of scaled dragScene 300 200 quiet 7 1 "[100, 50]" False]
    cursorPos_uses_shifted_point[of unscaled "dragScene\<lparr>mDragActive := False\<rparr>" 300 200 quiet 7]
    p o t f
  show ?thesis by (simp add: Let_def)
qed

lemma updateCursor_frame:
  "thisScreen (updateCursor w h) = thisScreen h" "mMousePos (updateCursor w h) = mMousePos h"
  "mMouseState (updateCursor w h) = mMouseState h" "mModifiers (updateCursor w h) = mModifiers h"
  by (simp_all add: updateCursor_def split: option.splits)

text \<open>
  C4, amended. \<^verbatim>\<open>cursorPosCallbackEvent\<close> stores the logical point shifted by \<open>(-1, -2)\<close> as the
  last statement of its \<^verbatim>\<open>try\<close> block, after the deliveries. Outside a drag, when the motion
  event returns, the handler returns its result on the heap the event left with the position
  stored; when it throws a \<^verbatim>\<open>std::exception\<close>, the handler writes the line to \<^verbatim>\<open>std::cerr\<close>,
  returns false and leaves the heap exactly as the event left it: the position is not stored.
  In a drag the same holds for the drag event, and, where the drag event returns false, for the
  motion event that follows it. The deliveries are given the position and the relative motion
  computed from the position stored before.
\<close>

theorem cursorPos_stores_on_completion:
  "(let p = Vector_minus 2 (logicalPos pf h x y) [1, 2];
        h1 = h\<lparr>mLastInteraction := now\<rparr>;
        h2 = updateCursor (Widget_findWidget cb h1 p) h1;
        rel = Vector_minus 2 p (mMousePos h);
        drag = MouseDragEvent d (Vector_minus 2 p origin) rel (mMouseState h) (mModifiers h);
        r = cursorPosCallbackEvent cb pf x y now h
    in
      (\<not> mDragActive h \<longrightarrow>
         (Widget_mouseMotionEvent cb (thisScreen h) p rel (mMouseState h) (mModifiers h) h2 =
            (Returns ret, h3) \<longrightarrow>
          r = ([FindWidget p, MouseMotionEvent (thisScreen h) p rel (mMouseState h) (mModifiers h)],
               Returns ret, h3\<lparr>mMousePos := p\<rparr>)) \<and>
         (Widget_mouseMotionEvent cb (thisScreen h) p rel (mMouseState h) (mModifiers h) h2 =
            (Throws (StdException what), h3) \<longrightarrow>
          r = ([FindWidget p, MouseMotionEvent (thisScreen h) p rel (mMouseState h) (mModifiers h),
                caught what], Returns False, h3) \<and>
          mMousePos (heap_of r) = mMousePos h3)) \<and>
      (mDragActive h \<longrightarrow> dragOrigin h = Some (d, origin) \<longrightarrow>
         (Widget_mouseDragEvent cb d (Vector_minus 2 p origin) rel (mMouseState h) (mModifiers h) h1 =
            (Throws (StdException what), h3) \<longrightarrow>
          r = ([drag, caught what], Returns False, h3) \<and> mMousePos (heap_of r) = mMousePos h3) \<and>
         (Widget_mouseDragEvent cb d (Vector_minus 2 p origin) rel (mMouseState h) (mModifiers h) h1 =
            (Returns True, h3) \<longrightarrow>
          r = ([drag], Returns True, h3\<lparr>mMousePos := p\<rparr>)) \<and>
         (Widget_mouseDragEvent cb d (Vector_minus 2 p origin) rel (mMouseState h) (mModifiers h) h1 =
            (Returns False, h3) \<longrightarrow>
            (Widget_mouseMotionEvent cb (thisScreen h3) p (Vector_minus 2 p (mMousePos h3))
               (mMouseState h3) (mModifiers h3) h3 = (Returns ret, h4) \<longrightarrow>
             r = ([drag, MouseMotionEvent (thisScreen h3) p (Vector_minus 2 p (mMousePos h3))
                           (mMouseState h3) (mModifiers h3)],
                  Returns ret, h4\<lparr>mMousePos := p\<rparr>)) \<and>
            (Widget_mouseMotionEvent cb (thisScreen h3) p (Vector_minus 2 p (mMousePos h3))
               (mMouseState h3) (mModifiers h3) h3 = (Throws (StdException what), h4) \<longrightarrow>
             r = ([drag, MouseMotionEvent (thisScreen h3) p (Vector_minus 2 p (mMousePos h3))
                           (mMouseState h3) (mModifiers h3), caught what],
                  Returns False, h4) \<and>
             mMousePos (heap_of r) = mMousePos h4))))"
proof -
  have o: "dragOrigin (h\<lparr>mLastInteraction := now\<rparr>) = dragOrigin h"
    by (simp add: dragOrigin_def split: option.splits)
  show ?thesis
    unfolding Let_def
    by (intro conjI impI)
       (simp_all add: cursorPosCallbackEvent_def cursorPosTry_def Let_def o updateCursor_frame
          call_mouseMotionEvent_def call_mouseDragEvent_def invoke_def caught_def)
qed

theorem cursorPos_stores_on_completion_witness:
  "cursorPosCallbackEvent quiet unscaled 10 10 7 blank =
     ([FindWidget [9, 8], MouseMotionEvent 0 [9, 8] [9, 8] 0 0], Returns False,
      blank\<lparr>mLastInteraction := 7, mMousePos := [9, 8]\<rparr>) \<and>
   cursorPosCallbackEvent throwing unscaled 10 10 7 blank =
     ([FindWidget [9, 8], MouseMotionEvent 0 [9, 8] [9, 8] 0 0, caught ''motion failed''],
      Returns False, blank\<lparr>mLastInteraction := 7\<rparr>) \<and>
   mMousePos (heap_of (cursorPosCallbackEvent throwing unscaled 10 10 7 blank)) = [0, 0] \<and>
   cursorPosCallbackEvent dragThrows scaled 300 200 7 dragScene =
     ([MouseDragEvent 1 [49, 48] [39, 38] 0 0, caught ''drag failed''], Returns False,
      dragScene\<lparr>mLastInteraction := 7\<rparr>) \<and>
   mMousePos (heap_of (cursorPosCallbackEvent dragThrows scaled 300 200 7 dragScene)) = [110, 60] \<and>
   cursorPosCallbackEvent dragConsumes scaled 300 200 7 dragScene =
     ([MouseDragEvent 1 [49, 48] [39, 38] 0 0], Returns True,
      dragScene\<lparr>mLastInteraction := 7, mMousePos := [149, 98]\<rparr>) \<and>
   cursorPosCallbackEvent quiet scaled 300 200 7 dragScene =
     ([MouseDragEvent 1 [49, 48] [39, 38] 0 0, MouseMotionEvent 0 [149, 98] [39, 38] 0 0],
      Returns False, dragScene\<lparr>mLastInteraction := 7, mMousePos := [149, 98]\<rparr>) \<and>
   cursorPosCallbackEvent throwing scaled 300 200 7 dragScene =
     ([MouseDragEvent 1 [49, 48] [39, 38] 0 0, MouseMotionEvent 0 [149, 98] [39, 38] 0 0,
       caught ''motion failed''],
      Returns False, dragScene\<lparr>mLastInteraction := 7\<rparr>) \<and>
   mMousePos (heap_of (cursorPosCallbackEvent throwing scaled 300 200 7 dragScene)) = [110, 60]"
proof -
  let ?b = "blank\<lparr>mLastInteraction := 7\<rparr>"
  let ?d = "dragScene\<lparr>mLastInteraction := 7\<rparr>"
  have p: "Vector_minus 2 (logicalPos unscaled blank 10 10) [1, 2] = [9, 8]"
    "Vector_minus 2 (logicalPos scaled dragScene 300 200) [1, 2] = [149, 98]"
    by (simp_all add: logicalPos_def scaled_def unscaled_def toward_zero_def dragScene_def)
  have b: "\<not> mDragActive blank" "mMousePos blank = [0, 0]" "thisScreen blank = 0"
    "mMouseState blank = 0" "mModifiers blank = 0"
    "updateCursor (Widget_findWidget quiet ?b [9, 8]) ?b = ?b"
    "updateCursor (Widget_findWidget throwing ?b [9, 8]) ?b = ?b"
    by (simp_all add: blank_def quiet_def throwing_def updateCursor_def)
  have d: "mDragActive dragScene" "dragOrigin dragScene = Some (1, [100, 50])"
    "mMousePos dragScene = [110, 60]" "thisScreen dragScene = 0"
    "mMouseState dragScene = 0" "mModifiers dragScene = 0"
    by (simp_all add: dragScene_def blank_def dragOrigin_def)
  have 1: "cursorPosCallbackEvent quiet unscaled 10 10 7 blank =
     ([FindWidget [9, 8], MouseMotionEvent 0 [9, 8] [9, 8] 0 0], Returns False,
      ?b\<lparr>mMousePos := [9, 8]\<rparr>)"
    using cursorPos_stores_on_completion[of unscaled blank 10 10 7 quiet _ _ False ?b] p(1) b(1-6)
    by (simp add: Let_def quiet_def)
  have 2: "cursorPosCallbackEvent throwing unscaled 10 10 7 blank =
     ([FindWidget [9, 8], MouseMotionEvent 0 [9, 8] [9, 8] 0 0, caught ''motion failed''],
      Returns False, ?b) \<and>
     mMousePos (heap_of (cursorPosCallbackEvent throwing unscaled 10 10 7 blank)) = mMousePos ?b"
    using cursorPos_stores_on_completion[of unscaled blank 10 10 7 throwing _ _ _ ?b "''motion failed''"]
      p(1) b(1-5,7)
    by (simp add: Let_def throwing_def quiet_def)
  have 3: "cursorPosCallbackEvent dragThrows scaled 300 200 7 dragScene =
     ([MouseDragEvent 1 [49, 48] [39, 38] 0 0, caught ''drag failed''], Returns False, ?d) \<and>
     mMousePos (heap_of (cursorPosCallbackEvent dragThrows scaled 300 200 7 dragScene)) = mMousePos ?d"
    using cursorPos_stores_on_completion[of scaled dragScene 300 200 7 dragThrows 1 "[100, 50]" _ ?d
        "''drag failed''"] p(2) d
    by (simp add: Let_def dragThrows_def quiet_def)
  have 4: "cursorPosCallbackEvent dragConsumes scaled 300 200 7 dragScene =
     ([MouseDragEvent 1 [49, 48] [39, 38] 0 0], Returns True, ?d\<lparr>mMousePos := [149, 98]\<rparr>)"
    using cursorPos_stores_on_completion[of scaled dragScene 300 200 7 dragConsumes 1 "[100, 50]" _ ?d]
      p(2) d
    by (simp add: Let_def dragConsumes_def quiet_def)
  have 5: "cursorPosCallbackEvent quiet scaled 300 200 7 dragScene =
     ([MouseDragEvent 1 [49, 48] [39, 38] 0 0, MouseMotionEvent 0 [149, 98] [39, 38] 0 0],
      Returns False, ?d\<lparr>mMousePos := [149, 98]\<rparr>)"
    using cursorPos_stores_on_completion[of scaled dragScene 300 200 7 quiet 1 "[100, 50]" False ?d
        _ ?d] p(2) d
    by (simp add: Let_def quiet_def)
  have 6: "cursorPosCallbackEvent throwing scaled 300 200 7 dragScene =
     ([MouseDragEvent 1 [49, 48] [39, 38] 0 0, MouseMotionEvent 0 [149, 98] [39, 38] 0 0,
       caught ''motion failed''], Returns False, ?d) \<and>
     mMousePos (heap_of (cursorPosCallbackEvent throwing scaled 300 200 7 dragScene)) = mMousePos ?d"
    using cursorPos_stores_on_completion[of scaled dragScene 300 200 7 throwing 1 "[100, 50]" _ ?d
        "''motion failed''" ?d] p(2) d
    by (simp add: Let_def throwing_def quiet_def)
  from 1 2 3 4 5 6 b(2) d(3) show ?thesis by simp
qed

text \<open>
  The claim as it was stated fails where the motion event throws: the handler returns false and
  the stored position is still (0, 0), neither the logical point (10, 10) nor the shifted
  point (9, 8).
\<close>

theorem cursorPos_not_stored_counterexample:
  "outcome_of (cursorPosCallbackEvent throwing unscaled 10 10 7 blank) = Returns False \<and>
   logicalPos unscaled blank 10 10 = [10, 10] \<and>
   Vector_minus 2 (logicalPos unscaled blank 10 10) [1, 2] = [9, 8] \<and>
   mMousePos (heap_of (cursorPosCallbackEvent throwing unscaled 10 10 7 blank)) = [0, 0]"
  by code_simp

subsection \<open>Keyboard routing\<close>












subsection \<open>Exceptions at the entry points\<close>

text \<open>The six handlers with a \<^verbatim>\<open>try\<close> block never let a \<^verbatim>\<open>std::exception\<close> out.\<close>

lemma tryCatch_catches: "outcome_of (tryCatch r) \<noteq> Throws (StdException what)"
  by (cases r) (auto simp: tryCatch_def split: outcome.splits exn.splits)

lemma guarded_handlers_catch:
  "outcome_of (cursorPosCallbackEvent cb pf x y now h) \<noteq> Throws (StdException what)"
  "outcome_of (mouseButtonCallbackEvent cb button action modifiers now h) \<noteq> Throws (StdException what)"
  "outcome_of (keyCallbackEvent cb key scancode action mods now h) \<noteq> Throws (StdException what)"
  "outcome_of (charCallbackEvent cb codepoint now h) \<noteq> Throws (StdException what)"
  "outcome_of (scrollCallbackEvent cb x y now h) \<noteq> Throws (StdException what)"
  "outcome_of (resizeCallbackEvent cb pf nativeSize now h) \<noteq> Throws (StdException what)"
  by (simp_all add: cursorPosCallbackEvent_def mouseButtonCallbackEvent_def keyCallbackEvent_def
      charCallbackEvent_def scrollCallbackEvent_def resizeCallbackEvent_def Let_def tryCatch_catches)

text \<open>
  C3. \<^verbatim>\<open>dropCallbackEvent\<close> has no \<^verbatim>\<open>try\<close> block: with a \<^verbatim>\<open>dropEvent\<close> that throws a
  \<^verbatim>\<open>std::exception\<close> the exception leaves the handler, where \<^verbatim>\<open>keyCallbackEvent\<close> on widgets
  that throw returns false.
\<close>

theorem dropCallbackEvent_propagates:
  "dropCallbackEvent throwing 1 [''a.txt''] blank =
     ([DropEvent [''a.txt'']], Throws (StdException ''drop failed''), blank) \<and>
   outcome_of (keyCallbackEvent throwing 65 0 1 0 7 modalScene) = Returns False"
  by (simp add: dropCallbackEvent_def call_dropEvent_def invoke_def throwing_def quiet_def
      keyCallbackEvent_def keyboardEvent_def call_keyboardEvent_def modalScene_def blank_def)

subsection \<open>The drag target after \<^verbatim>\<open>disposeWindow\<close>\<close>

text \<open>
  C9. A press of button 1 over the window 2 starts a drag of it; \<^verbatim>\<open>disposeWindow\<close> then clears
  the drag widget and leaves the drag active, and the next \<^verbatim>\<open>cursorPosCallbackEvent\<close>
  dereferences the null drag widget.
\<close>

theorem dispose_leaves_drag_active:
  "mDragActive pressed \<and> mDragWidget pressed = Some 2 \<and>
   mDragActive (disposeWindow 2 pressed) \<and> mDragWidget (disposeWindow 2 pressed) = None \<and>
   outcome_of (cursorPosCallbackEvent quiet unscaled 10 10 8 (disposeWindow 2 pressed)) = Undefined"
  by code_simp

end
